theory Spec2Isabelle
  imports Main
begin

section \<open>Data model of embed-iframe.ts\<close>

text \<open>
  The module runs inside the guest document of an iframe. The model describes it in a
  browser (\<open>isBrowser\<close> is true there); everything the module reads from its surroundings
  is a field of \<open>env\<close>, everything it writes is a field of \<open>world\<close>.
\<close>

text \<open>The keys of \<open>EmbedStyles\<close> and \<open>EmbedStylesBranding\<close>.\<close>

datatype elementName =
  body | eventTypeListItem | enabledDateButton | disabledDateButton
  | availabilityDatePicker | branding

text \<open>
  The equations that let \<open>elementName\<close> be enumerated, so that two style configurations
  can be compared by looking at every target.
\<close>

instantiation elementName :: enum
begin

definition enum_elementName :: "elementName list" where
  "enum_elementName =
     [body, eventTypeListItem, enabledDateButton, disabledDateButton,
      availabilityDatePicker, branding]"

definition enum_all_elementName :: "(elementName \<Rightarrow> bool) \<Rightarrow> bool" where
  "enum_all_elementName P =
     (P body \<and> P eventTypeListItem \<and> P enabledDateButton \<and> P disabledDateButton \<and>
      P availabilityDatePicker \<and> P branding)"

definition enum_ex_elementName :: "(elementName \<Rightarrow> bool) \<Rightarrow> bool" where
  "enum_ex_elementName P =
     (P body \<or> P eventTypeListItem \<or> P enabledDateButton \<or> P disabledDateButton \<or>
      P availabilityDatePicker \<or> P branding)"

instance
proof
  have u: "(UNIV :: elementName set) =
      {body, eventTypeListItem, enabledDateButton, disabledDateButton,
       availabilityDatePicker, branding}"
  proof -
    have "x \<in> {body, eventTypeListItem, enabledDateButton, disabledDateButton,
        availabilityDatePicker, branding}" for x
      by (cases x) simp_all
    then show ?thesis by blast
  qed
  show "(UNIV :: elementName set) = set enum_class.enum"
    by (simp add: u enum_elementName_def)
  show "distinct (enum_class.enum :: elementName list)"
    by (simp add: enum_elementName_def)
  show "enum_class.enum_all P = Ball (UNIV :: elementName set) P" for P
    by (simp add: u enum_all_elementName_def)
  show "enum_class.enum_ex P = Bex (UNIV :: elementName set) P" for P
    by (simp add: u enum_ex_elementName_def)
qed

end

text \<open>
  The style attributes given for one target, an object such as \<open>{background: "red"}\<close>, as the
  list of its entries.
\<close>

type_synonym cssProperties = "(string \<times> string) list"

type_synonym EmbedStyles = "elementName \<rightharpoonup> cssProperties"

text \<open>\<open>interface UiConfig { theme: string; styles: EmbedStyles }\<close>\<close>

record UiConfig =
  cfg_theme :: string
  cfg_styles :: EmbedStyles

text \<open>
  The outward events this module fires through \<open>sdkActionManager\<close>; \<open>OtherEvent\<close> stands
  for an event fired on the same bus by another module of the application.
\<close>

datatype event =
  IframeReady
  | LinkReady
  | LinkFailed string
  | WindowLoadComplete
  | DimensionChanged int int bool
  | OtherEvent string

datatype log_arg =
  LStr string
  | LUiConfig UiConfig
  | LEvent event
  | LContext "string option"

datatype console_line = ConsoleLog "log_arg list" | ConsoleWarn string

text \<open>How a callback was scheduled: \<open>requestAnimationFrame(fn)\<close> or \<open>setTimeout(fn, ms)\<close>.\<close>

datatype sched = AnimationFrame | Timeout nat

text \<open>
  The callbacks the module hands to the scheduler: \<open>informAboutScroll\<close>, the 10 ms timer
  that sets \<open>isWindowLoadComplete\<close> and calls \<open>informAboutScroll\<close>, the retry of
  \<open>style(uiConfig)\<close>, \<open>tryInformingLinkReady\<close> and \<open>unhideBody\<close>.
\<close>

datatype task =
  InformAboutScroll
  | SettleThenInform
  | UiRetry UiConfig
  | TryInformingLinkReady
  | UnhideBody

datatype error = TypeError

text \<open>
  The values a property of \<open>e.data\<close> can have, as far as the listener tells them apart
  (\<open>=== "CAL"\<close>, \<open>typeof method === "string"\<close>).
\<close>

datatype jsval = JUndefined | JNull | JBool bool | JNum int | JStr string | JObject

text \<open>
  The three properties the listener reads from a truthy \<open>e.data\<close>: \<open>originator\<close>, \<open>method\<close>
  (here \<open>methodField\<close>) and \<open>arg\<close>. \<open>arg\<close> has the type the handler \<open>ui\<close> declares for it;
  \<open>parentKnowsIframeReady\<close> takes no argument and ignores it.
\<close>

record message =
  originator :: jsval
  methodField :: jsval
  arg :: UiConfig

record env =
  url_embed :: "string option"
  url_prerender :: "string option"
  url_debug :: "string option"
  isSafariBrowser :: bool
  CalComPlan :: "string option"
  CalComPageStatus :: "string option"
  isTopWindow :: bool
  readyStateComplete :: bool
  scrollHeight :: int
  scrollWidth :: int
  offsetHeight :: int
  offsetWidth :: int

text \<open>
  \<open>embedStore\<close>. \<open>reactStylesStateSetters\<close> is an object whose entries are enumerated in
  insertion order, so it is an association list; a React state setter is named by a number.
\<close>

record embedStore =
  styles :: EmbedStyles
  namespace :: "string option"
  theme :: "string option"
  reactStylesStateSetters :: "(elementName \<times> nat) list"
  parentInformedAboutContentHeight :: bool
  windowLoadEventFired :: bool

text \<open>The variables closed over by \<open>informAboutScroll\<close>.\<close>

record watcher =
  knownIframeHeight :: "int option"
  numDimensionChanges :: nat
  isFirstTime :: bool
  isWindowLoadComplete :: bool

record world =
  env :: env
  store :: embedStore
  dw :: watcher
  busSubscribed :: bool
  listenerInstalled :: bool
  pending :: "(sched \<times> task) list"
  bodyDisplay :: "string option"
  bodyBackground :: "string option"
  logQueue :: "log_arg list list"
  console :: "console_line list"
  fired :: "event list"
  posted :: "event list"
  reactState :: "nat \<Rightarrow> EmbedStyles"
  setterCalls :: "nat list"
  errors :: "error list"

text \<open>JavaScript truthiness of a value that is a string or absent.\<close>

definition truthy :: "string option \<Rightarrow> bool" where
  "truthy v = (case v of None \<Rightarrow> False | Some s \<Rightarrow> s \<noteq> [])"

section \<open>Scheduling\<close>

definition schedule :: "sched \<Rightarrow> task \<Rightarrow> world \<Rightarrow> world" where
  "schedule s t w = w\<lparr>pending := pending w @ [(s, t)]\<rparr>"

definition runAsap :: "task \<Rightarrow> world \<Rightarrow> world" where
  "runAsap t w =
     (if isSafariBrowser (env w) then schedule (Timeout 50) t w
      else schedule AnimationFrame t w)"

section \<open>Namespace and logging\<close>

text \<open>\<open>null\<close> and \<open>undefined\<close> are both \<open>None\<close>.\<close>

definition isValidNamespace :: "string option \<Rightarrow> bool" where
  "isValidNamespace ns = (ns \<noteq> None)"

definition getNamespace :: "world \<Rightarrow> string option \<times> world" where
  "getNamespace w =
     (if isValidNamespace (namespace (store w)) then (namespace (store w), w)
      else (let ns = url_embed (env w)
            in (ns, w\<lparr>store := (store w)\<lparr>namespace := ns\<rparr>\<rparr>)))"

definition isEmbed :: "world \<Rightarrow> bool \<times> world" where
  "isEmbed w = (let (ns, w1) = getNamespace w in (isValidNamespace ns, w1))"

text \<open>
  \<open>log(...args)\<close>: the entry pushed on \<open>window.CalEmbed.__logQueue\<close> is \<open>"CAL:"\<close>, the
  arguments and the context object (of which the namespace is kept); it is mirrored on the
  console when the \<open>debug\<close> query parameter is truthy.
\<close>

definition log :: "log_arg list \<Rightarrow> world \<Rightarrow> world" where
  "log args w =
     (let (ns, w1) = getNamespace w;
          entry = LStr ''CAL:'' # args @ [LContext ns];
          w2 = w1\<lparr>logQueue := logQueue w1 @ [entry]\<rparr>
      in if truthy (url_debug (env w2))
         then w2\<lparr>console := console w2 @ [ConsoleLog entry]\<rparr>
         else w2)"

section \<open>The outward event bus and the parent\<close>

definition messageParent :: "event \<Rightarrow> world \<Rightarrow> world" where
  "messageParent d w = w\<lparr>posted := posted w @ [d]\<rparr>"

text \<open>
  Modelled from the spec: \<open>sdkActionManager\<close> (module \<open>./sdk-event\<close>) is not part of the
  sources. It is the outward event bus with \<open>fire(name, detail)\<close> and \<open>on(pattern, handler)\<close>,
  wildcard subscription included. \<open>fire\<close> records the event and runs the one handler this
  module subscribes with \<open>on("*", ...)\<close>, which logs the detail and sends it to the parent.
\<close>

definition fire :: "event \<Rightarrow> world \<Rightarrow> world" where
  "fire ev w =
     (let w1 = w\<lparr>fired := fired w @ [ev]\<rparr>
      in if busSubscribed w1 then messageParent ev (log [LEvent ev] w1) else w1)"

section \<open>Style subscriptions\<close>

text \<open>
  A React state setter called with a value stores it; called with a function it stores
  the function's result on the previous state.
\<close>

definition callSetter :: "nat \<Rightarrow> (EmbedStyles \<Rightarrow> EmbedStyles) \<Rightarrow> world \<Rightarrow> world" where
  "callSetter s f w =
     w\<lparr>reactState := (reactState w)(s := f (reactState w s)),
       setterCalls := setterCalls w @ [s]\<rparr>"

text \<open>The loop of \<open>setEmbedStyles\<close> over \<open>Object.entries(embedStore.reactStylesStateSetters)\<close>.\<close>

fun callSetters :: "(elementName \<times> nat) list \<Rightarrow> EmbedStyles \<Rightarrow> world \<Rightarrow> world" where
  "callSetters [] stylesConfig w = w"
| "callSetters ((n, s) # es) stylesConfig w =
     callSetters es stylesConfig (callSetter s (\<lambda>st. st ++ stylesConfig) w)"

definition setEmbedStyles :: "EmbedStyles \<Rightarrow> world \<Rightarrow> world" where
  "setEmbedStyles stylesConfig w =
     (let w1 = w\<lparr>store := (store w)\<lparr>styles := stylesConfig\<rparr>\<rparr>
      in callSetters (reactStylesStateSetters (store w1)) stylesConfig w1)"

text \<open>
  \<open>obj[key] = v\<close> keeps the position of a key that is already there and appends a new one.
\<close>

fun assign :: "elementName \<Rightarrow> nat \<Rightarrow> (elementName \<times> nat) list \<Rightarrow> (elementName \<times> nat) list" where
  "assign k v [] = [(k, v)]"
| "assign k v (p # ps) = (if fst p = k then (k, v) # ps else p # assign k v ps)"

definition registerNewSetter :: "elementName \<Rightarrow> nat \<Rightarrow> world \<Rightarrow> world" where
  "registerNewSetter elementName setStyles w =
     (let w1 = w\<lparr>store := (store w)\<lparr>reactStylesStateSetters :=
                   assign elementName setStyles (reactStylesStateSetters (store w))\<rparr>\<rparr>
      in callSetter setStyles (\<lambda>_. styles (store w1)) w1)"

definition removeFromEmbedStylesSetterMap :: "elementName \<Rightarrow> world \<Rightarrow> world" where
  "removeFromEmbedStylesSetterMap elementName w =
     w\<lparr>store := (store w)\<lparr>reactStylesStateSetters :=
          filter (\<lambda>p. fst p \<noteq> elementName) (reactStylesStateSetters (store w))\<rparr>\<rparr>"

text \<open>
  \<open>useEmbedTheme\<close>; the argument is \<open>router.query.theme\<close>, absent (\<open>None\<close>) or a string.
\<close>

definition useEmbedTheme :: "string option \<Rightarrow> world \<Rightarrow> string option \<times> world" where
  "useEmbedTheme q w =
     (if truthy (theme (store w)) then (theme (store w), w)
      else (q, w\<lparr>store := (store w)\<lparr>theme := q\<rparr>\<rparr>))"

section \<open>The instruction handlers\<close>

definition unhideBody :: "world \<Rightarrow> world" where
  "unhideBody w = w\<lparr>bodyDisplay := Some ''block''\<rparr>"

text \<open>\<open>stylesConfig.body?.background\<close>\<close>

definition bodyBackgroundOf :: "EmbedStyles \<Rightarrow> string option" where
  "bodyBackgroundOf stylesConfig =
     (case stylesConfig body of None \<Rightarrow> None | Some props \<Rightarrow> map_of props ''background'')"

text \<open>\<open>methods.ui\<close>, the function \<open>style\<close>.\<close>

definition ui :: "UiConfig \<Rightarrow> world \<Rightarrow> world" where
  "ui uiConfig w =
     (let w1 = log [LStr ''Method: ui called'', LUiConfig uiConfig] w
      in if truthy (CalComPlan (env w1)) \<and> CalComPlan (env w1) \<noteq> Some ''PRO''
         then log [LStr ''Upgrade to PRO for \"ui\" instruction to work'',
                   LStr (the (CalComPlan (env w1)))] w1
         else if \<not> truthy (CalComPlan (env w1))
         then schedule AnimationFrame (UiRetry uiConfig) w1
         else (let stylesConfig = cfg_styles uiConfig;
                   w2 = (if truthy (bodyBackgroundOf stylesConfig)
                         then w1\<lparr>bodyBackground := bodyBackgroundOf stylesConfig\<rparr>
                         else w1)
               in setEmbedStyles stylesConfig w2))"

text \<open>The body of \<open>tryInformingLinkReady\<close>.\<close>

definition tryInformingLinkReady :: "world \<Rightarrow> world" where
  "tryInformingLinkReady w =
     (if \<not> parentInformedAboutContentHeight (store w)
      then runAsap TryInformingLinkReady w
      else fire LinkReady (schedule AnimationFrame UnhideBody w))"

definition parentKnowsIframeReady :: "world \<Rightarrow> world" where
  "parentKnowsIframeReady w =
     runAsap TryInformingLinkReady (log [LStr ''Method: `parentKnowsIframeReady` called''] w)"

section \<open>The dimension watcher\<close>

definition informAboutScroll :: "world \<Rightarrow> world" where
  "informAboutScroll w =
     (if \<not> readyStateComplete (env w) then runAsap InformAboutScroll w
      else if \<not> isWindowLoadComplete (dw w) then schedule (Timeout 10) SettleThenInform w
      else
        (let w1 = (if \<not> windowLoadEventFired (store w) then fire WindowLoadComplete w else w);
             w2 = w1\<lparr>store := (store w1)\<lparr>windowLoadEventFired := True\<rparr>\<rparr>;
             iframeHeight = (if isFirstTime (dw w2) then scrollHeight (env w2)
                             else offsetHeight (env w2));
             iframeWidth = (if isFirstTime (dw w2) then scrollWidth (env w2)
                            else offsetWidth (env w2));
             w3 = w2\<lparr>store := (store w2)\<lparr>parentInformedAboutContentHeight := True\<rparr>\<rparr>;
             w4 = (if knownIframeHeight (dw w3) \<noteq> Some iframeHeight
                   then fire (DimensionChanged iframeHeight iframeWidth (isFirstTime (dw w3)))
                          (w3\<lparr>dw := (dw w3)\<lparr>knownIframeHeight := Some iframeHeight,
                                 numDimensionChanges := numDimensionChanges (dw w3) + 1\<rparr>\<rparr>)
                   else w3);
             w5 = w4\<lparr>dw := (dw w4)\<lparr>isFirstTime := False\<rparr>\<rparr>
         in if numDimensionChanges (dw w5) > 50
            then w5\<lparr>console := console w5 @ [ConsoleWarn ''Too many dimension changes detected.'']\<rparr>
            else runAsap InformAboutScroll w5))"

definition keepParentInformedAboutDimensionChanges :: "world \<Rightarrow> world" where
  "keepParentInformedAboutDimensionChanges w =
     runAsap InformAboutScroll
       (w\<lparr>dw := \<lparr>knownIframeHeight = None, numDimensionChanges = 0,
                 isFirstTime = True, isWindowLoadComplete = False\<rparr>\<rparr>)"

section \<open>The message listener\<close>

datatype handler = H_ui | H_parentKnowsIframeReady

text \<open>
  What \<open>methods[method]\<close> evaluates to. \<open>methods\<close> is an object literal, so besides its two
  own properties the lookup finds the members of \<open>Object.prototype\<close>: functions, and under
  \<open>__proto__\<close> the prototype object itself, which is not callable.
\<close>

datatype member =
  Own handler
  | PrototypeFunction
  | PrototypeFunctionExpectingFunction
  | PrototypeObject
  | Absent

definition methods :: "string \<Rightarrow> member" where
  "methods name =
     (if name = ''ui'' then Own H_ui
      else if name = ''parentKnowsIframeReady'' then Own H_parentKnowsIframeReady
      else if name = ''__proto__'' then PrototypeObject
      else if name \<in> set [''__defineGetter__'', ''__defineSetter__'']
      then PrototypeFunctionExpectingFunction
      else if name \<in> set [''constructor'', ''hasOwnProperty'', ''isPrototypeOf'',
                           ''propertyIsEnumerable'', ''toLocaleString'', ''toString'',
                           ''valueOf'', ''__lookupGetter__'', ''__lookupSetter__'']
      then PrototypeFunction
      else Absent)"

text \<open>
  \<open>methods[method]?.(data.arg)\<close>: the optional call skips \<open>undefined\<close> only. Calling the
  prototype object, or \<open>__defineGetter__\<close> without a function, throws a TypeError, which
  leaves the listener uncaught.
\<close>

definition callMethod :: "string \<Rightarrow> UiConfig \<Rightarrow> world \<Rightarrow> world" where
  "callMethod name a w =
     (case methods name of
        Own H_ui \<Rightarrow> ui a w
      | Own H_parentKnowsIframeReady \<Rightarrow> parentKnowsIframeReady w
      | PrototypeFunction \<Rightarrow> w
      | PrototypeFunctionExpectingFunction \<Rightarrow> w\<lparr>errors := errors w @ [TypeError]\<rparr>
      | PrototypeObject \<Rightarrow> w\<lparr>errors := errors w @ [TypeError]\<rparr>
      | Absent \<Rightarrow> w)"

text \<open>The listener; \<open>None\<close> is a falsy \<open>e.data\<close>.\<close>

definition onMessage :: "message option \<Rightarrow> world \<Rightarrow> world" where
  "onMessage d w =
     (case d of
        None \<Rightarrow> w
      | Some m \<Rightarrow>
          (case methodField m of
             JStr name \<Rightarrow> (if originator m = JStr ''CAL'' then callMethod name (arg m) w else w)
           | _ \<Rightarrow> w))"

section \<open>Module initialisation\<close>

text \<open>The top-level statements of the module, in their order.\<close>

definition bootstrap :: "world \<Rightarrow> world" where
  "bootstrap w =
     (if url_prerender (env w) = Some ''true'' then w
      else (let (e, w1) = isEmbed w in
        if \<not> e then w1
        else (let w2 = log [LStr ''Initializing embed-iframe''] w1;
                  pageStatus = CalComPageStatus (env w2);
                  w3 = (if isTopWindow (env w2) then unhideBody w2 else w2);
                  w4 = w3\<lparr>busSubscribed := True\<rparr>;
                  w5 = w4\<lparr>listenerInstalled := True\<rparr>
              in if \<not> truthy pageStatus \<or> pageStatus = Some ''200''
                 then fire IframeReady (keepParentInformedAboutDimensionChanges w5)
                 else fire (LinkFailed (the pageStatus)) w5)))"

definition moduleInit :: "world \<Rightarrow> world" where
  "moduleInit w =
     bootstrap
       (if isSafariBrowser (env w)
        then log [LStr ''Safari Detected: Using setTimeout instead of rAF''] w
        else w)"

text \<open>The document before the module has run.\<close>

definition initialWorld :: "env \<Rightarrow> world" where
  "initialWorld e =
     \<lparr>env = e,
      store = \<lparr>styles = Map.empty, namespace = None, theme = None,
               reactStylesStateSetters = [], parentInformedAboutContentHeight = False,
               windowLoadEventFired = False\<rparr>,
      dw = \<lparr>knownIframeHeight = None, numDimensionChanges = 0,
            isFirstTime = True, isWindowLoadComplete = False\<rparr>,
      busSubscribed = False, listenerInstalled = False, pending = [],
      bodyDisplay = None, bodyBackground = None, logQueue = [], console = [],
      fired = [], posted = [], reactState = (\<lambda>_. Map.empty), setterCalls = [],
      errors = []\<rparr>"

section \<open>The document as a transition system\<close>

text \<open>
  Everything that can happen in the document after the module has run: a window message
  arrives, the scheduler runs a pending callback, the surrounding page changes what the
  module reads, the React layer calls a hook.
\<close>

datatype action =
  Message "message option"
  | RunTask sched task
  | SetPlan "string option"
  | SetUrl "string option" "string option" "string option"
  | SetReadyState bool
  | SetDimensions int int int int
  | UseEmbedTheme "string option"
  | UseIsEmbed
  | RegisterNewSetter elementName nat
  | RemoveSetter elementName
  | BusFire string

definition runTask :: "task \<Rightarrow> world \<Rightarrow> world" where
  "runTask t w =
     (case t of
        InformAboutScroll \<Rightarrow> informAboutScroll w
      | SettleThenInform \<Rightarrow>
          informAboutScroll (w\<lparr>dw := (dw w)\<lparr>isWindowLoadComplete := True\<rparr>\<rparr>)
      | UiRetry uiConfig \<Rightarrow> ui uiConfig w
      | TryInformingLinkReady \<Rightarrow> tryInformingLinkReady w
      | UnhideBody \<Rightarrow> unhideBody w)"

definition step :: "action \<Rightarrow> world \<Rightarrow> world" where
  "step a w =
     (case a of
        Message d \<Rightarrow> (if listenerInstalled w then onMessage d w else w)
      | RunTask s t \<Rightarrow>
          (if (s, t) \<in> set (pending w)
           then runTask t (w\<lparr>pending := remove1 (s, t) (pending w)\<rparr>)
           else w)
      | SetPlan p \<Rightarrow> w\<lparr>env := (env w)\<lparr>CalComPlan := p\<rparr>\<rparr>
      | SetUrl e p d \<Rightarrow> w\<lparr>env := (env w)\<lparr>url_embed := e, url_prerender := p, url_debug := d\<rparr>\<rparr>
      | SetReadyState b \<Rightarrow> w\<lparr>env := (env w)\<lparr>readyStateComplete := b\<rparr>\<rparr>
      | SetDimensions sh sw oh ow \<Rightarrow>
          w\<lparr>env := (env w)\<lparr>scrollHeight := sh, scrollWidth := sw,
                            offsetHeight := oh, offsetWidth := ow\<rparr>\<rparr>
      | UseEmbedTheme q \<Rightarrow> snd (useEmbedTheme q w)
      | UseIsEmbed \<Rightarrow> snd (isEmbed w)
      | RegisterNewSetter n s \<Rightarrow> registerNewSetter n s w
      | RemoveSetter n \<Rightarrow> removeFromEmbedStylesSetterMap n w
      | BusFire name \<Rightarrow> fire (OtherEvent name) w)"

fun run :: "action list \<Rightarrow> world \<Rightarrow> world" where
  "run [] w = w"
| "run (a # as) w = run as (step a w)"

section \<open>Example documents\<close>

text \<open>
  A document loaded in an iframe from a link with \<open>?embed=abc\<close>, fully loaded, on a
  browser that is not Safari.
\<close>

definition exampleEnv :: env where
  "exampleEnv =
     \<lparr>url_embed = Some ''abc'', url_prerender = None, url_debug = None,
      isSafariBrowser = False, CalComPlan = None, CalComPageStatus = None,
      isTopWindow = False, readyStateComplete = True,
      scrollHeight = 0, scrollWidth = 0, offsetHeight = 0, offsetWidth = 0\<rparr>"

section \<open>Observations and runs\<close>

text \<open>The scheduling primitive \<open>runAsap\<close> chooses for this document.\<close>

definition asap :: "world \<Rightarrow> sched" where
  "asap w = (if isSafariBrowser (env w) then Timeout 50 else AnimationFrame)"

definition isWarning :: "console_line \<Rightarrow> bool" where
  "isWarning l = (case l of ConsoleWarn s \<Rightarrow> True | ConsoleLog e \<Rightarrow> False)"

text \<open>
  The document loaded with the environment \<open>e\<close>, after the actions \<open>acts\<close>.
\<close>

definition loaded :: "env \<Rightarrow> action list \<Rightarrow> world" where
  "loaded e acts = run acts (moduleInit (initialWorld e))"

text \<open>
  What a style instruction can change: the stored styles, the state of the React
  subscribers, the calls of their setters and the background of the body.
\<close>

definition styleState :: "world \<Rightarrow> EmbedStyles \<times> (nat \<Rightarrow> EmbedStyles) \<times> nat list \<times> string option" where
  "styleState w = (styles (store w), reactState w, setterCalls w, bodyBackground w)"

text \<open>The pending retries of the instruction \<open>ui(c)\<close>.\<close>

definition retries :: "UiConfig \<Rightarrow> world \<Rightarrow> nat" where
  "retries c w = count_list (pending w) (AnimationFrame, UiRetry c)"

text \<open>
  \<open>n\<close> animation frames, each running a pending retry of \<open>ui(c)\<close>.
\<close>

definition frames :: "nat \<Rightarrow> UiConfig \<Rightarrow> action list" where
  "frames n c = replicate n (RunTask AnimationFrame (UiRetry c))"

text \<open>
  The instruction \<open>ui(c)\<close> is received in \<open>w\<close> and \<open>n\<close> animation frames pass.
\<close>

definition deferred :: "nat \<Rightarrow> UiConfig \<Rightarrow> world \<Rightarrow> world" where
  "deferred n c w = run (frames n c) (ui c w)"

text \<open>
  After that the page sets \<open>window.CalComPlan\<close> to \<open>p\<close> and the next frame comes.
\<close>

definition afterPlan :: "nat \<Rightarrow> UiConfig \<Rightarrow> string \<Rightarrow> world \<Rightarrow> world" where
  "afterPlan n c p w =
     step (RunTask AnimationFrame (UiRetry c)) (step (SetPlan (Some p)) (deferred n c w))"

text \<open>Two style configurations for the examples.\<close>

definition redOnly :: EmbedStyles where
  "redOnly = [eventTypeListItem \<mapsto> [(''background'', ''red'')], body \<mapsto> [(''background'', ''white'')]]"

definition blueOnly :: EmbedStyles where
  "blueOnly = [eventTypeListItem \<mapsto> [(''color'', ''blue'')]]"

text \<open>A document in which nothing of the protocol is installed.\<close>

definition dormant :: "world \<Rightarrow> bool" where
  "dormant w = (\<not> busSubscribed w \<and> \<not> listenerInstalled w \<and> pending w = [] \<and> posted w = [])"

fun isUiRetry :: "sched \<times> task \<Rightarrow> bool" where
  "isUiRetry (s, UiRetry c) = True"
| "isUiRetry (s, t) = False"

text \<open>
  The instruction \<open>parentKnowsIframeReady\<close> as the listener accepts it.
\<close>

fun isReadyAck :: "action \<Rightarrow> bool" where
  "isReadyAck (Message (Some m)) =
     (originator m = JStr ''CAL'' \<and> methodField m = JStr ''parentKnowsIframeReady'')"
| "isReadyAck a = False"

fun isReadyPoll :: "sched \<times> task \<Rightarrow> bool" where
  "isReadyPoll (s, TryInformingLinkReady) = True"
| "isReadyPoll (s, t) = False"

fun isUnhide :: "sched \<times> task \<Rightarrow> bool" where
  "isUnhide (s, UnhideBody) = True"
| "isUnhide (s, t) = False"

definition linkReadyFired :: "world \<Rightarrow> nat" where
  "linkReadyFired w = count_list (fired w) LinkReady"

definition readyPolls :: "world \<Rightarrow> nat" where
  "readyPolls w = length (filter isReadyPoll (pending w))"

text \<open>
  A \<open>ui\<close> instruction, its message and the message of the readiness handshake, for the
  examples.
\<close>

definition exampleConfig :: UiConfig where
  "exampleConfig = \<lparr>cfg_theme = ''dark'', cfg_styles = redOnly\<rparr>"

definition uiMessage :: message where
  "uiMessage = \<lparr>originator = JStr ''CAL'', methodField = JStr ''ui'', arg = exampleConfig\<rparr>"

definition readyAck :: message where
  "readyAck = \<lparr>originator = JStr ''CAL'', methodField = JStr ''parentKnowsIframeReady'',
               arg = exampleConfig\<rparr>"

text \<open>
  The load runs the bootstrap: the URL does not ask for prerendering and has the \<open>embed\<close>
  parameter.
\<close>

definition embedLoad :: "env \<Rightarrow> bool" where
  "embedLoad e = (url_prerender e \<noteq> Some ''true'' \<and> url_embed e \<noteq> None)"

text \<open>\<open>!pageStatus || pageStatus == "200"\<close>\<close>

definition pageOk :: "env \<Rightarrow> bool" where
  "pageOk e = (\<not> truthy (CalComPageStatus e) \<or> CalComPageStatus e = Some ''200'')"

text \<open>
  Whenever the listener is installed or a retry of \<open>ui\<close> is pending, the namespace has been
  resolved.
\<close>

definition resolvedWhenActive :: "world \<Rightarrow> bool" where
  "resolvedWhenActive w =
     (listenerInstalled w \<or> (\<exists>p \<in> set (pending w). isUiRetry p) \<longrightarrow> namespace (store w) \<noteq> None)"

text \<open>
  The readiness handshake: the watcher arms its timer and takes its first sample, the parent
  acknowledges, the poll finds the height reported, the body is shown.
\<close>

definition handshake :: "action list" where
  "handshake =
     [RunTask AnimationFrame InformAboutScroll, RunTask (Timeout 10) SettleThenInform,
      Message (Some readyAck), RunTask AnimationFrame TryInformingLinkReady,
      RunTask AnimationFrame UnhideBody]"

text \<open>
  The same handshake when the parent sends the acknowledgement twice: each instruction
  starts a poll of its own.
\<close>

definition doubleAck :: "action list" where
  "doubleAck =
     [RunTask AnimationFrame InformAboutScroll, RunTask (Timeout 10) SettleThenInform,
      Message (Some readyAck), Message (Some readyAck),
      RunTask AnimationFrame TryInformingLinkReady, RunTask AnimationFrame TryInformingLinkReady,
      RunTask AnimationFrame UnhideBody]"

text \<open>
  The body is shown by \<open>unhideBody\<close> only, and that is pending or done only after the parent
  was informed about the height and \<open>linkReady\<close> was fired.
\<close>

definition hiddenUntilReady :: "world \<Rightarrow> bool" where
  "hiddenUntilReady w =
     ((bodyDisplay w = None \<or> bodyDisplay w = Some ''block'') \<and>
      (bodyDisplay w \<noteq> None \<or> filter isUnhide (pending w) \<noteq> [] \<longrightarrow>
       parentInformedAboutContentHeight (store w) \<and> LinkReady \<in> set (fired w)))"

section \<open>Observations of the dimension watcher\<close>

fun isDimensionChanged :: "event \<Rightarrow> bool" where
  "isDimensionChanged (DimensionChanged h w f) = True"
| "isDimensionChanged e = False"

text \<open>The \<open>dimension-changed\<close> events fired so far.\<close>

definition dimensionEvents :: "world \<Rightarrow> event list" where
  "dimensionEvents w = filter isDimensionChanged (fired w)"

fun isWatcherTask :: "sched \<times> task \<Rightarrow> bool" where
  "isWatcherTask (s, InformAboutScroll) = True"
| "isWatcherTask (s, SettleThenInform) = True"
| "isWatcherTask (s, t) = False"

text \<open>The pending callbacks of the watcher: the loop is scheduled while there is one.\<close>

definition watcherTasks :: "world \<Rightarrow> (sched \<times> task) list" where
  "watcherTasks w = filter isWatcherTask (pending w)"

text \<open>The diagnostic warnings on the console.\<close>

definition warnings :: "world \<Rightarrow> console_line list" where
  "warnings w = filter isWarning (console w)"

definition tooMany :: console_line where
  "tooMany = ConsoleWarn ''Too many dimension changes detected.''"

text \<open>
  One measurement of the document: \<open>scrollHeight\<close>, \<open>scrollWidth\<close>, \<open>offsetHeight\<close>,
  \<open>offsetWidth\<close>.
\<close>

type_synonym dimensions = "int \<times> int \<times> int \<times> int"

text \<open>
  One wake-up of the watcher: the document has the measurement \<open>d\<close> and the scheduler runs
  the pending callback of the watcher; nothing happens when the loop has stopped.
\<close>

definition tick :: "dimensions \<Rightarrow> world \<Rightarrow> world" where
  "tick d w =
     (case watcherTasks w of
        [] \<Rightarrow> w
      | (s, t) # ts \<Rightarrow>
          (case d of (sh, sw, oh, ow) \<Rightarrow>
             step (RunTask s t) (step (SetDimensions sh sw oh ow) w)))"

fun watch :: "dimensions list \<Rightarrow> world \<Rightarrow> world" where
  "watch [] w = w"
| "watch (d # ds) w = watch ds (tick d w)"

text \<open>
  The event that reports each measurement when its height differs from the one before: the
  scroll size with \<open>isFirstTime\<close> for the first sample, the offset size afterwards.
\<close>

fun reported :: "bool \<Rightarrow> dimensions list \<Rightarrow> event list" where
  "reported f [] = []"
| "reported f ((sh, sw, oh, ow) # ds) =
     (if f then DimensionChanged sh sw True else DimensionChanged oh ow False) # reported False ds"

text \<open>
  The heights the watcher compares: \<open>scrollHeight\<close> for the first sample, \<open>offsetHeight\<close>
  afterwards.
\<close>

fun heightsFrom :: "bool \<Rightarrow> dimensions list \<Rightarrow> int list" where
  "heightsFrom f [] = []"
| "heightsFrom f ((sh, sw, oh, ow) # ds) = (if f then sh else oh) # heightsFrom False ds"

definition heights :: "dimensions list \<Rightarrow> int list" where
  "heights ds = heightsFrom True ds"

text \<open>
  The local variables \<open>iframeHeight\<close> and \<open>iframeWidth\<close> of \<open>informAboutScroll\<close>, and the
  counter after the comparison.
\<close>

definition iframeHeight :: "world \<Rightarrow> int" where
  "iframeHeight w = (if isFirstTime (dw w) then scrollHeight (env w) else offsetHeight (env w))"

definition iframeWidth :: "world \<Rightarrow> int" where
  "iframeWidth w = (if isFirstTime (dw w) then scrollWidth (env w) else offsetWidth (env w))"

definition nextCount :: "world \<Rightarrow> nat" where
  "nextCount w =
     (if knownIframeHeight (dw w) \<noteq> Some (iframeHeight w) then Suc (numDimensionChanges (dw w))
      else numDimensionChanges (dw w))"

text \<open>
  The watcher is about to measure: the document is complete and the pending callback is
  the 10 ms timer or, after it, \<open>informAboutScroll\<close>.
\<close>

definition sampling :: "world \<Rightarrow> bool" where
  "sampling w =
     (readyStateComplete (env w) \<and>
      (watcherTasks w = [(Timeout 10, SettleThenInform)] \<or>
       isWindowLoadComplete (dw w) \<and> watcherTasks w = [(asap w, InformAboutScroll)]))"

text \<open>
  The counter counts the events, at most one callback of the watcher is pending, and once
  the counter exceeds 50 the loop has stopped with one warning.
\<close>

definition bounded :: "world \<Rightarrow> bool" where
  "bounded w =
     (length (dimensionEvents w) = numDimensionChanges (dw w) \<and>
      length (watcherTasks w) \<le> 1 \<and>
      numDimensionChanges (dw w) \<le> 51 \<and>
      (50 < numDimensionChanges (dw w) \<longrightarrow> watcherTasks w = []) \<and>
      warnings w = (if 50 < numDimensionChanges (dw w) then [tooMany] else []))"

text \<open>
  Measurements whose height changes every time, and the sequence 500, 500, 500, 800.
\<close>

definition growing :: "nat \<Rightarrow> dimensions list" where
  "growing n = map (\<lambda>i. (int i, 800, int i, 800)) [1..<Suc n]"

definition steadyThenGrown :: "dimensions list" where
  "steadyThenGrown = [(500, 800, 500, 800), (500, 800, 500, 800), (500, 800, 500, 800),
     (800, 800, 800, 800)]"

section \<open>The namespace and the theme are kept\<close>

lemma getNamespace_Some: "namespace (store w) = Some n \<Longrightarrow> getNamespace w = (Some n, w)"
  by (simp add: getNamespace_def isValidNamespace_def)

lemma getNamespace_None:
  "namespace (store w) = None \<Longrightarrow>
   getNamespace w = (url_embed (env w), w\<lparr>store := (store w)\<lparr>namespace := url_embed (env w)\<rparr>\<rparr>)"
  by (simp add: getNamespace_def isValidNamespace_def Let_def)

lemma ns_log: "namespace (store w) = Some n \<Longrightarrow> namespace (store (log a w)) = Some n"
  by (simp add: log_def getNamespace_Some Let_def)

lemma ns_fire: "namespace (store w) = Some n \<Longrightarrow> namespace (store (fire e w)) = Some n"
  by (simp add: fire_def messageParent_def ns_log Let_def)

lemma ns_runAsap: "namespace (store (runAsap t w)) = namespace (store w)"
  by (simp add: runAsap_def schedule_def)

lemma ns_callSetters: "namespace (store (callSetters es c w)) = namespace (store w)"
  by (induction es c w rule: callSetters.induct) (simp_all add: callSetter_def)

lemma ns_ui: "namespace (store w) = Some n \<Longrightarrow> namespace (store (ui c w)) = Some n"
  by (simp add: ui_def Let_def ns_log schedule_def setEmbedStyles_def ns_callSetters)

lemma ns_informAboutScroll:
  "namespace (store w) = Some n \<Longrightarrow> namespace (store (informAboutScroll w)) = Some n"
  by (simp add: informAboutScroll_def Let_def ns_fire ns_runAsap schedule_def)

lemma ns_runTask: "namespace (store w) = Some n \<Longrightarrow> namespace (store (runTask t w)) = Some n"
  by (cases t)
    (simp_all add: runTask_def ns_informAboutScroll ns_ui tryInformingLinkReady_def ns_fire
      ns_runAsap schedule_def unhideBody_def)

lemma ns_onMessage:
  "namespace (store w) = Some n \<Longrightarrow> namespace (store (onMessage d w)) = Some n"
  by (simp add: onMessage_def callMethod_def ns_ui parentKnowsIframeReady_def ns_runAsap ns_log
      split: option.splits jsval.splits member.splits handler.splits)

lemma ns_step: "namespace (store w) = Some n \<Longrightarrow> namespace (store (step a w)) = Some n"
  by (cases a)
    (simp_all add: step_def ns_onMessage ns_runTask useEmbedTheme_def isEmbed_def
      getNamespace_Some registerNewSetter_def callSetter_def removeFromEmbedStylesSetterMap_def
      ns_fire)

lemma ns_run: "namespace (store w) = Some n \<Longrightarrow> namespace (store (run acts w)) = Some n"
  by (induction acts arbitrary: w) (simp_all add: ns_step)

lemma theme_log: "theme (store (log a w)) = theme (store w)"
  by (simp add: log_def getNamespace_def Let_def)

lemma theme_fire: "theme (store (fire e w)) = theme (store w)"
  by (simp add: fire_def messageParent_def theme_log Let_def)

lemma theme_runAsap: "theme (store (runAsap t w)) = theme (store w)"
  by (simp add: runAsap_def schedule_def)

lemma theme_callSetters: "theme (store (callSetters es c w)) = theme (store w)"
  by (induction es c w rule: callSetters.induct) (simp_all add: callSetter_def)

lemma theme_ui: "theme (store (ui c w)) = theme (store w)"
  by (simp add: ui_def Let_def theme_log schedule_def setEmbedStyles_def theme_callSetters)

lemma theme_informAboutScroll: "theme (store (informAboutScroll w)) = theme (store w)"
  by (simp add: informAboutScroll_def Let_def theme_fire theme_runAsap schedule_def)

lemma theme_runTask: "theme (store (runTask t w)) = theme (store w)"
  by (cases t)
    (simp_all add: runTask_def theme_informAboutScroll theme_ui tryInformingLinkReady_def
      theme_fire theme_runAsap schedule_def unhideBody_def)

lemma theme_onMessage: "theme (store (onMessage d w)) = theme (store w)"
  by (simp add: onMessage_def callMethod_def theme_ui parentKnowsIframeReady_def theme_runAsap
      theme_log split: option.splits jsval.splits member.splits handler.splits)

lemma theme_step:
  "theme (store w) = Some t \<Longrightarrow> t \<noteq> [] \<Longrightarrow> theme (store (step a w)) = Some t"
  by (cases a)
    (simp_all add: step_def theme_onMessage theme_runTask useEmbedTheme_def truthy_def
      isEmbed_def getNamespace_def registerNewSetter_def callSetter_def
      removeFromEmbedStylesSetterMap_def theme_fire Let_def)

lemma theme_run:
  "theme (store w) = Some t \<Longrightarrow> t \<noteq> [] \<Longrightarrow> theme (store (run acts w)) = Some t"
  by (induction acts arbitrary: w) (simp_all add: theme_step)

section \<open>What each operation changes\<close>

lemma schedule_fields [simp]:
  "env (schedule s t w) = env w"
  "store (schedule s t w) = store w"
  "dw (schedule s t w) = dw w"
  "busSubscribed (schedule s t w) = busSubscribed w"
  "listenerInstalled (schedule s t w) = listenerInstalled w"
  "pending (schedule s t w) = pending w @ [(s, t)]"
  "bodyDisplay (schedule s t w) = bodyDisplay w"
  "bodyBackground (schedule s t w) = bodyBackground w"
  "console (schedule s t w) = console w"
  "fired (schedule s t w) = fired w"
  "posted (schedule s t w) = posted w"
  "reactState (schedule s t w) = reactState w"
  "setterCalls (schedule s t w) = setterCalls w"
  "errors (schedule s t w) = errors w"
  by (simp_all add: schedule_def)

lemma runAsap_eq: "runAsap t w = schedule (asap w) t w"
  by (simp add: runAsap_def asap_def)

lemma getNamespace_fields [simp]:
  "env (snd (getNamespace w)) = env w"
  "store (snd (getNamespace w)) = (store w)\<lparr>namespace := fst (getNamespace w)\<rparr>"
  "dw (snd (getNamespace w)) = dw w"
  "busSubscribed (snd (getNamespace w)) = busSubscribed w"
  "listenerInstalled (snd (getNamespace w)) = listenerInstalled w"
  "pending (snd (getNamespace w)) = pending w"
  "bodyDisplay (snd (getNamespace w)) = bodyDisplay w"
  "bodyBackground (snd (getNamespace w)) = bodyBackground w"
  "console (snd (getNamespace w)) = console w"
  "fired (snd (getNamespace w)) = fired w"
  "posted (snd (getNamespace w)) = posted w"
  "reactState (snd (getNamespace w)) = reactState w"
  "setterCalls (snd (getNamespace w)) = setterCalls w"
  "errors (snd (getNamespace w)) = errors w"
  by (simp_all add: getNamespace_def Let_def)

lemma log_fields [simp]:
  "env (log a w) = env w"
  "store (log a w) = (store w)\<lparr>namespace := fst (getNamespace w)\<rparr>"
  "dw (log a w) = dw w"
  "busSubscribed (log a w) = busSubscribed w"
  "listenerInstalled (log a w) = listenerInstalled w"
  "pending (log a w) = pending w"
  "bodyDisplay (log a w) = bodyDisplay w"
  "bodyBackground (log a w) = bodyBackground w"
  "filter isWarning (console (log a w)) = filter isWarning (console w)"
  "fired (log a w) = fired w"
  "posted (log a w) = posted w"
  "reactState (log a w) = reactState w"
  "setterCalls (log a w) = setterCalls w"
  "errors (log a w) = errors w"
  by (simp_all add: log_def Let_def split_beta isWarning_def)

lemma fire_fields [simp]:
  "env (fire e w) = env w"
  "store (fire e w) =
     (if busSubscribed w then (store w)\<lparr>namespace := fst (getNamespace w)\<rparr> else store w)"
  "dw (fire e w) = dw w"
  "busSubscribed (fire e w) = busSubscribed w"
  "listenerInstalled (fire e w) = listenerInstalled w"
  "pending (fire e w) = pending w"
  "bodyDisplay (fire e w) = bodyDisplay w"
  "bodyBackground (fire e w) = bodyBackground w"
  "filter isWarning (console (fire e w)) = filter isWarning (console w)"
  "fired (fire e w) = fired w @ [e]"
  "posted (fire e w) = (if busSubscribed w then posted w @ [e] else posted w)"
  "reactState (fire e w) = reactState w"
  "setterCalls (fire e w) = setterCalls w"
  "errors (fire e w) = errors w"
  by (simp_all add: fire_def messageParent_def Let_def getNamespace_def)

lemma callSetters_fields [simp]:
  "env (callSetters es c w) = env w"
  "store (callSetters es c w) = store w"
  "dw (callSetters es c w) = dw w"
  "busSubscribed (callSetters es c w) = busSubscribed w"
  "listenerInstalled (callSetters es c w) = listenerInstalled w"
  "pending (callSetters es c w) = pending w"
  "bodyDisplay (callSetters es c w) = bodyDisplay w"
  "bodyBackground (callSetters es c w) = bodyBackground w"
  "console (callSetters es c w) = console w"
  "fired (callSetters es c w) = fired w"
  "posted (callSetters es c w) = posted w"
  "errors (callSetters es c w) = errors w"
  by (induction es c w rule: callSetters.induct; simp add: callSetter_def)+

lemma callSetters_calls [simp]:
  "setterCalls (callSetters es c w) = setterCalls w @ map snd es"
  by (induction es c w rule: callSetters.induct) (simp_all add: callSetter_def)

lemma map_add_twice: "(m ++ c) ++ c = m ++ (c :: 'a \<rightharpoonup> 'b)"
  by (rule ext) (simp add: map_add_def split: option.split)

lemma callSetters_state:
  "reactState (callSetters es c w) s =
     (if s \<in> snd ` set es then reactState w s ++ c else reactState w s)"
  by (induction es c w rule: callSetters.induct) (auto simp: callSetter_def map_add_twice)

lemma setEmbedStyles_fields [simp]:
  "env (setEmbedStyles c w) = env w"
  "store (setEmbedStyles c w) = (store w)\<lparr>styles := c\<rparr>"
  "dw (setEmbedStyles c w) = dw w"
  "busSubscribed (setEmbedStyles c w) = busSubscribed w"
  "listenerInstalled (setEmbedStyles c w) = listenerInstalled w"
  "pending (setEmbedStyles c w) = pending w"
  "bodyDisplay (setEmbedStyles c w) = bodyDisplay w"
  "bodyBackground (setEmbedStyles c w) = bodyBackground w"
  "console (setEmbedStyles c w) = console w"
  "fired (setEmbedStyles c w) = fired w"
  "posted (setEmbedStyles c w) = posted w"
  "setterCalls (setEmbedStyles c w) = setterCalls w @ map snd (reactStylesStateSetters (store w))"
  "errors (setEmbedStyles c w) = errors w"
  by (simp_all add: setEmbedStyles_def Let_def)

lemma setEmbedStyles_state:
  "reactState (setEmbedStyles c w) s =
     (if s \<in> snd ` set (reactStylesStateSetters (store w)) then reactState w s ++ c
      else reactState w s)"
  by (simp add: setEmbedStyles_def Let_def callSetters_state)

lemma ui_fields [simp]:
  "env (ui c w) = env w"
  "dw (ui c w) = dw w"
  "busSubscribed (ui c w) = busSubscribed w"
  "listenerInstalled (ui c w) = listenerInstalled w"
  "pending (ui c w) =
     pending w @ (if truthy (CalComPlan (env w)) then [] else [(AnimationFrame, UiRetry c)])"
  "bodyDisplay (ui c w) = bodyDisplay w"
  "filter isWarning (console (ui c w)) = filter isWarning (console w)"
  "fired (ui c w) = fired w"
  "posted (ui c w) = posted w"
  "errors (ui c w) = errors w"
  by (simp_all add: ui_def Let_def)

lemma ui_store:
  "store (ui c w) =
     (store w)\<lparr>namespace := fst (getNamespace w),
               styles := (if CalComPlan (env w) = Some ''PRO'' then cfg_styles c
                          else styles (store w))\<rparr>"
  by (simp add: ui_def Let_def truthy_def getNamespace_def isValidNamespace_def)

lemma informAboutScroll_fields [simp]:
  "env (informAboutScroll w) = env w"
  "busSubscribed (informAboutScroll w) = busSubscribed w"
  "listenerInstalled (informAboutScroll w) = listenerInstalled w"
  "bodyDisplay (informAboutScroll w) = bodyDisplay w"
  "bodyBackground (informAboutScroll w) = bodyBackground w"
  "reactState (informAboutScroll w) = reactState w"
  "setterCalls (informAboutScroll w) = setterCalls w"
  "errors (informAboutScroll w) = errors w"
  by (simp_all add: informAboutScroll_def Let_def runAsap_eq)

lemma run_append: "run (xs @ ys) w = run ys (run xs w)"
  by (induction xs arbitrary: w) simp_all

lemma count_list_remove1_same:
  "x \<in> set xs \<Longrightarrow> Suc (count_list (remove1 x xs) x) = count_list xs x"
  by (induction xs) auto

lemma informAboutScroll_pending:
  "\<exists>ts. pending (informAboutScroll w) = pending w @ ts \<and>
        set ts \<subseteq> {(asap w, InformAboutScroll), (Timeout 10, SettleThenInform)}"
  by (simp add: informAboutScroll_def Let_def runAsap_eq asap_def)

lemma informAboutScroll_pending_filter:
  assumes "\<And>s. \<not> P (s, InformAboutScroll)" and "\<And>s. \<not> P (s, SettleThenInform)"
  shows "filter P (pending (informAboutScroll w)) = filter P (pending w)"
proof -
  obtain ts where ts: "pending (informAboutScroll w) = pending w @ ts"
    "set ts \<subseteq> {(asap w, InformAboutScroll), (Timeout 10, SettleThenInform)}"
    using informAboutScroll_pending by blast
  have "filter P ts = []"
    using ts(2) assms by (auto simp: filter_empty_conv)
  then show ?thesis by (simp add: ts(1))
qed

lemma informAboutScroll_posted:
  "busSubscribed w \<Longrightarrow> posted w = fired w \<Longrightarrow>
   posted (informAboutScroll w) = fired (informAboutScroll w)"
  by (simp add: informAboutScroll_def Let_def runAsap_eq asap_def)

lemma informAboutScroll_posted_off:
  "\<not> busSubscribed w \<Longrightarrow> posted (informAboutScroll w) = posted w"
  by (simp add: informAboutScroll_def Let_def runAsap_eq asap_def)

lemma informAboutScroll_linkReady:
  "count_list (fired (informAboutScroll w)) LinkReady = count_list (fired w) LinkReady"
  by (simp add: informAboutScroll_def Let_def runAsap_eq asap_def)

lemma informAboutScroll_informed:
  "parentInformedAboutContentHeight (store w) \<Longrightarrow>
   parentInformedAboutContentHeight (store (informAboutScroll w))"
  by (simp add: informAboutScroll_def Let_def runAsap_eq asap_def)

lemma tryInformingLinkReady_fields [simp]:
  "env (tryInformingLinkReady w) = env w"
  "dw (tryInformingLinkReady w) = dw w"
  "busSubscribed (tryInformingLinkReady w) = busSubscribed w"
  "listenerInstalled (tryInformingLinkReady w) = listenerInstalled w"
  "bodyDisplay (tryInformingLinkReady w) = bodyDisplay w"
  "bodyBackground (tryInformingLinkReady w) = bodyBackground w"
  "reactState (tryInformingLinkReady w) = reactState w"
  "setterCalls (tryInformingLinkReady w) = setterCalls w"
  "errors (tryInformingLinkReady w) = errors w"
  "pending (tryInformingLinkReady w) =
     pending w @ (if parentInformedAboutContentHeight (store w) then [(AnimationFrame, UnhideBody)]
                  else [(asap w, TryInformingLinkReady)])"
  "fired (tryInformingLinkReady w) =
     fired w @ (if parentInformedAboutContentHeight (store w) then [LinkReady] else [])"
  "posted (tryInformingLinkReady w) =
     posted w @ (if parentInformedAboutContentHeight (store w) \<and> busSubscribed w then [LinkReady]
                 else [])"
  "parentInformedAboutContentHeight (store (tryInformingLinkReady w)) =
     parentInformedAboutContentHeight (store w)"
  by (simp_all add: tryInformingLinkReady_def runAsap_eq asap_def)

lemma parentKnowsIframeReady_fields [simp]:
  "env (parentKnowsIframeReady w) = env w"
  "store (parentKnowsIframeReady w) = (store w)\<lparr>namespace := fst (getNamespace w)\<rparr>"
  "dw (parentKnowsIframeReady w) = dw w"
  "busSubscribed (parentKnowsIframeReady w) = busSubscribed w"
  "listenerInstalled (parentKnowsIframeReady w) = listenerInstalled w"
  "bodyDisplay (parentKnowsIframeReady w) = bodyDisplay w"
  "bodyBackground (parentKnowsIframeReady w) = bodyBackground w"
  "reactState (parentKnowsIframeReady w) = reactState w"
  "setterCalls (parentKnowsIframeReady w) = setterCalls w"
  "errors (parentKnowsIframeReady w) = errors w"
  "pending (parentKnowsIframeReady w) = pending w @ [(asap w, TryInformingLinkReady)]"
  "fired (parentKnowsIframeReady w) = fired w"
  "posted (parentKnowsIframeReady w) = posted w"
  by (simp_all add: parentKnowsIframeReady_def runAsap_eq asap_def)

lemma initialWorld_fields [simp]:
  "env (initialWorld e) = e"
  "namespace (store (initialWorld e)) = None"
  "theme (store (initialWorld e)) = None"
  "reactStylesStateSetters (store (initialWorld e)) = []"
  "parentInformedAboutContentHeight (store (initialWorld e)) = False"
  "windowLoadEventFired (store (initialWorld e)) = False"
  "busSubscribed (initialWorld e) = False"
  "listenerInstalled (initialWorld e) = False"
  "pending (initialWorld e) = []"
  "bodyDisplay (initialWorld e) = None"
  "bodyBackground (initialWorld e) = None"
  "console (initialWorld e) = []"
  "fired (initialWorld e) = []"
  "posted (initialWorld e) = []"
  "setterCalls (initialWorld e) = []"
  "errors (initialWorld e) = []"
  by (simp_all add: initialWorld_def)

lemma useEmbedTheme_fields [simp]:
  "env (snd (useEmbedTheme q w)) = env w"
  "dw (snd (useEmbedTheme q w)) = dw w"
  "busSubscribed (snd (useEmbedTheme q w)) = busSubscribed w"
  "listenerInstalled (snd (useEmbedTheme q w)) = listenerInstalled w"
  "pending (snd (useEmbedTheme q w)) = pending w"
  "bodyDisplay (snd (useEmbedTheme q w)) = bodyDisplay w"
  "console (snd (useEmbedTheme q w)) = console w"
  "fired (snd (useEmbedTheme q w)) = fired w"
  "posted (snd (useEmbedTheme q w)) = posted w"
  "errors (snd (useEmbedTheme q w)) = errors w"
  "parentInformedAboutContentHeight (store (snd (useEmbedTheme q w))) =
     parentInformedAboutContentHeight (store w)"
  by (simp_all add: useEmbedTheme_def)

lemma isEmbed_fields [simp]:
  "env (snd (isEmbed w)) = env w"
  "dw (snd (isEmbed w)) = dw w"
  "busSubscribed (snd (isEmbed w)) = busSubscribed w"
  "listenerInstalled (snd (isEmbed w)) = listenerInstalled w"
  "pending (snd (isEmbed w)) = pending w"
  "bodyDisplay (snd (isEmbed w)) = bodyDisplay w"
  "console (snd (isEmbed w)) = console w"
  "fired (snd (isEmbed w)) = fired w"
  "posted (snd (isEmbed w)) = posted w"
  "errors (snd (isEmbed w)) = errors w"
  "store (snd (isEmbed w)) = (store w)\<lparr>namespace := fst (getNamespace w)\<rparr>"
  by (simp_all add: isEmbed_def split_beta)

lemma registerNewSetter_fields [simp]:
  "env (registerNewSetter n s w) = env w"
  "dw (registerNewSetter n s w) = dw w"
  "busSubscribed (registerNewSetter n s w) = busSubscribed w"
  "listenerInstalled (registerNewSetter n s w) = listenerInstalled w"
  "pending (registerNewSetter n s w) = pending w"
  "bodyDisplay (registerNewSetter n s w) = bodyDisplay w"
  "console (registerNewSetter n s w) = console w"
  "fired (registerNewSetter n s w) = fired w"
  "posted (registerNewSetter n s w) = posted w"
  "errors (registerNewSetter n s w) = errors w"
  "parentInformedAboutContentHeight (store (registerNewSetter n s w)) =
     parentInformedAboutContentHeight (store w)"
  by (simp_all add: registerNewSetter_def callSetter_def Let_def)

lemma removeFromEmbedStylesSetterMap_fields [simp]:
  "env (removeFromEmbedStylesSetterMap n w) = env w"
  "dw (removeFromEmbedStylesSetterMap n w) = dw w"
  "busSubscribed (removeFromEmbedStylesSetterMap n w) = busSubscribed w"
  "listenerInstalled (removeFromEmbedStylesSetterMap n w) = listenerInstalled w"
  "pending (removeFromEmbedStylesSetterMap n w) = pending w"
  "bodyDisplay (removeFromEmbedStylesSetterMap n w) = bodyDisplay w"
  "console (removeFromEmbedStylesSetterMap n w) = console w"
  "fired (removeFromEmbedStylesSetterMap n w) = fired w"
  "posted (removeFromEmbedStylesSetterMap n w) = posted w"
  "errors (removeFromEmbedStylesSetterMap n w) = errors w"
  "parentInformedAboutContentHeight (store (removeFromEmbedStylesSetterMap n w)) =
     parentInformedAboutContentHeight (store w)"
  by (simp_all add: removeFromEmbedStylesSetterMap_def)

lemma onMessage_fields [simp]:
  "env (onMessage d w) = env w"
  "dw (onMessage d w) = dw w"
  "busSubscribed (onMessage d w) = busSubscribed w"
  "listenerInstalled (onMessage d w) = listenerInstalled w"
  "bodyDisplay (onMessage d w) = bodyDisplay w"
  "fired (onMessage d w) = fired w"
  "posted (onMessage d w) = posted w"
  "parentInformedAboutContentHeight (store (onMessage d w)) =
     parentInformedAboutContentHeight (store w)"
  by (simp_all add: onMessage_def callMethod_def ui_store
      split: option.splits jsval.splits member.splits handler.splits)

lemma runTask_fields [simp]:
  "env (runTask t w) = env w"
  "busSubscribed (runTask t w) = busSubscribed w"
  "listenerInstalled (runTask t w) = listenerInstalled w"
  by (cases t; simp add: runTask_def unhideBody_def)+

lemma step_installed [simp]: "listenerInstalled (step a w) = listenerInstalled w"
  by (cases a)
    (simp_all add: step_def)

lemma step_subscribed [simp]: "busSubscribed (step a w) = busSubscribed w"
  by (cases a)
    (simp_all add: step_def)

lemma run_installed [simp]: "listenerInstalled (run acts w) = listenerInstalled w"
  by (induction acts arbitrary: w) simp_all

lemma run_subscribed [simp]: "busSubscribed (run acts w) = busSubscribed w"
  by (induction acts arbitrary: w) simp_all

lemma keepParentInformed_fields [simp]:
  "env (keepParentInformedAboutDimensionChanges w) = env w"
  "store (keepParentInformedAboutDimensionChanges w) = store w"
  "dw (keepParentInformedAboutDimensionChanges w) =
     \<lparr>knownIframeHeight = None, numDimensionChanges = 0, isFirstTime = True,
      isWindowLoadComplete = False\<rparr>"
  "busSubscribed (keepParentInformedAboutDimensionChanges w) = busSubscribed w"
  "listenerInstalled (keepParentInformedAboutDimensionChanges w) = listenerInstalled w"
  "pending (keepParentInformedAboutDimensionChanges w) = pending w @ [(asap w, InformAboutScroll)]"
  "bodyDisplay (keepParentInformedAboutDimensionChanges w) = bodyDisplay w"
  "console (keepParentInformedAboutDimensionChanges w) = console w"
  "fired (keepParentInformedAboutDimensionChanges w) = fired w"
  "posted (keepParentInformedAboutDimensionChanges w) = posted w"
  "errors (keepParentInformedAboutDimensionChanges w) = errors w"
  by (simp_all add: keepParentInformedAboutDimensionChanges_def runAsap_eq asap_def)

section \<open>The load of the document\<close>

lemma dormant_step: "dormant w \<Longrightarrow> dormant (step a w)"
  by (cases a)
    (simp_all add: dormant_def step_def useEmbedTheme_def isEmbed_def split_beta
      registerNewSetter_def callSetter_def removeFromEmbedStylesSetterMap_def Let_def)

lemma dormant_run: "dormant w \<Longrightarrow> dormant (run acts w)"
  by (induction acts arbitrary: w) (simp_all add: dormant_step)

lemma bootstrap_prerender: "url_prerender (env w) = Some ''true'' \<Longrightarrow> bootstrap w = w"
  by (simp add: bootstrap_def)

lemma dormant_moduleInit:
  assumes "url_prerender e = Some ''true''"
  shows "dormant (moduleInit (initialWorld e))"
proof -
  have "dormant (initialWorld e)"
    and "dormant (log [LStr ''Safari Detected: Using setTimeout instead of rAF''] (initialWorld e))"
    by (simp_all add: dormant_def)
  then show ?thesis
    using assms by (simp add: moduleInit_def bootstrap_prerender)
qed

lemma bootstrap_embed:
  assumes "url_prerender (env w) \<noteq> Some ''true''" and "fst (getNamespace w) \<noteq> None"
  shows "env (bootstrap w) = env w"
    and "namespace (store (bootstrap w)) = fst (getNamespace w)"
    and "parentInformedAboutContentHeight (store (bootstrap w)) =
           parentInformedAboutContentHeight (store w)"
    and "windowLoadEventFired (store (bootstrap w)) = windowLoadEventFired (store w)"
    and "busSubscribed (bootstrap w)"
    and "listenerInstalled (bootstrap w)"
    and "pending (bootstrap w) =
           pending w @ (if pageOk (env w) then [(asap w, InformAboutScroll)] else [])"
    and "bodyDisplay (bootstrap w) = (if isTopWindow (env w) then Some ''block'' else bodyDisplay w)"
    and "fired (bootstrap w) =
           fired w @ [if pageOk (env w) then IframeReady
                      else LinkFailed (the (CalComPageStatus (env w)))]"
    and "posted (bootstrap w) =
           posted w @ [if pageOk (env w) then IframeReady
                       else LinkFailed (the (CalComPageStatus (env w)))]"
    and "filter isWarning (console (bootstrap w)) = filter isWarning (console w)"
    and "errors (bootstrap w) = errors w"
    and "pageOk (env w) \<Longrightarrow> dw (bootstrap w) =
           \<lparr>knownIframeHeight = None, numDimensionChanges = 0, isFirstTime = True,
            isWindowLoadComplete = False\<rparr>"
  using assms
  by (auto simp: bootstrap_def isEmbed_def split_beta Let_def isValidNamespace_def pageOk_def
      unhideBody_def asap_def getNamespace_def)

lemma bootstrap_not_embed:
  "url_prerender (env w) \<noteq> Some ''true'' \<Longrightarrow> fst (getNamespace w) = None \<Longrightarrow>
   bootstrap w = snd (getNamespace w)"
  by (simp add: bootstrap_def isEmbed_def split_beta isValidNamespace_def)

lemma moduleInit_embed:
  assumes "embedLoad e"
  shows "env (moduleInit (initialWorld e)) = e"
    and "namespace (store (moduleInit (initialWorld e))) = url_embed e"
    and "\<not> parentInformedAboutContentHeight (store (moduleInit (initialWorld e)))"
    and "\<not> windowLoadEventFired (store (moduleInit (initialWorld e)))"
    and "busSubscribed (moduleInit (initialWorld e))"
    and "listenerInstalled (moduleInit (initialWorld e))"
    and "pending (moduleInit (initialWorld e)) =
           (if pageOk e then [(asap (initialWorld e), InformAboutScroll)] else [])"
    and "bodyDisplay (moduleInit (initialWorld e)) = (if isTopWindow e then Some ''block'' else None)"
    and "fired (moduleInit (initialWorld e)) =
           [if pageOk e then IframeReady else LinkFailed (the (CalComPageStatus e))]"
    and "posted (moduleInit (initialWorld e)) = fired (moduleInit (initialWorld e))"
    and "filter isWarning (console (moduleInit (initialWorld e))) = []"
    and "errors (moduleInit (initialWorld e)) = []"
    and "pageOk e \<Longrightarrow> dw (moduleInit (initialWorld e)) =
           \<lparr>knownIframeHeight = None, numDimensionChanges = 0, isFirstTime = True,
            isWindowLoadComplete = False\<rparr>"
proof -
  let ?v = "if isSafariBrowser e
            then log [LStr ''Safari Detected: Using setTimeout instead of rAF''] (initialWorld e)
            else initialWorld e"
  have m: "moduleInit (initialWorld e) = bootstrap ?v"
    by (simp add: moduleInit_def)
  have p: "url_prerender (env ?v) \<noteq> Some ''true''"
    using assms by (simp add: embedLoad_def)
  have g: "fst (getNamespace ?v) = url_embed e"
    using assms by (simp add: embedLoad_def getNamespace_def isValidNamespace_def Let_def)
  then have n: "fst (getNamespace ?v) \<noteq> None"
    using assms by (simp add: embedLoad_def)
  note b = bootstrap_embed [OF p n]
  show "env (moduleInit (initialWorld e)) = e" by (simp add: m b)
  show "namespace (store (moduleInit (initialWorld e))) = url_embed e" by (simp add: m b g)
  show "\<not> parentInformedAboutContentHeight (store (moduleInit (initialWorld e)))"
    by (simp add: m b)
  show "\<not> windowLoadEventFired (store (moduleInit (initialWorld e)))" by (simp add: m b)
  show "busSubscribed (moduleInit (initialWorld e))" by (simp add: m b)
  show "listenerInstalled (moduleInit (initialWorld e))" by (simp add: m b)
  show "pending (moduleInit (initialWorld e)) =
           (if pageOk e then [(asap (initialWorld e), InformAboutScroll)] else [])"
    by (simp add: m b asap_def)
  show "bodyDisplay (moduleInit (initialWorld e)) = (if isTopWindow e then Some ''block'' else None)"
    by (simp add: m b)
  show "fired (moduleInit (initialWorld e)) =
           [if pageOk e then IframeReady else LinkFailed (the (CalComPageStatus e))]"
    by (simp add: m b)
  show "posted (moduleInit (initialWorld e)) = fired (moduleInit (initialWorld e))"
    by (simp add: m b)
  show "filter isWarning (console (moduleInit (initialWorld e))) = []"
    by (simp add: m b)
  show "errors (moduleInit (initialWorld e)) = []" by (simp add: m b)
  show "dw (moduleInit (initialWorld e)) =
           \<lparr>knownIframeHeight = None, numDimensionChanges = 0, isFirstTime = True,
            isWindowLoadComplete = False\<rparr>" if "pageOk e"
    using that by (simp add: m b)
qed

lemma moduleInit_not_embed:
  assumes "\<not> embedLoad e"
  shows "dormant (moduleInit (initialWorld e))"
proof (cases "url_prerender e = Some ''true''")
  case True
  then show ?thesis by (rule dormant_moduleInit)
next
  case False
  let ?v = "if isSafariBrowser e
            then log [LStr ''Safari Detected: Using setTimeout instead of rAF''] (initialWorld e)
            else initialWorld e"
  have m: "moduleInit (initialWorld e) = bootstrap ?v"
    by (simp add: moduleInit_def)
  have p: "url_prerender (env ?v) \<noteq> Some ''true''"
    using False by simp
  have g: "fst (getNamespace ?v) = None"
    using assms False by (simp add: embedLoad_def getNamespace_def isValidNamespace_def Let_def)
  show ?thesis
    by (simp add: m bootstrap_not_embed [OF p g] dormant_def)
qed

section \<open>Broadcasting styles\<close>

text \<open>
  C3, where the claim fails: one subscriber is registered for \<open>eventTypeListItem\<close>; a first
  broadcast gives that target a background and the body a background, a second one gives the
  target a colour only. Afterwards the subscriber's slice for the target is the colour alone, without
  the background (the attribute sets are not merged), and the stored configuration no
  longer has the body.
\<close>

theorem setEmbedStyles_not_merged:
  "reactState (setEmbedStyles redOnly
        (registerNewSetter eventTypeListItem 1 (initialWorld exampleEnv))) 1 eventTypeListItem
     = Some [(''background'', ''red'')] \<and>
   reactState (setEmbedStyles blueOnly (setEmbedStyles redOnly
        (registerNewSetter eventTypeListItem 1 (initialWorld exampleEnv)))) 1 eventTypeListItem
     = Some [(''color'', ''blue'')] \<and>
   styles (store (setEmbedStyles redOnly
        (registerNewSetter eventTypeListItem 1 (initialWorld exampleEnv)))) body
     = Some [(''background'', ''white'')] \<and>
   styles (store (setEmbedStyles blueOnly (setEmbedStyles redOnly
        (registerNewSetter eventTypeListItem 1 (initialWorld exampleEnv))))) body = None"
  by (simp add: setEmbedStyles_state registerNewSetter_def callSetter_def initialWorld_def
      redOnly_def blueOnly_def Let_def)

lemma assign_member: "(k, v) \<in> set (assign k v ps)"
  by (induction ps) auto

lemma removeFromEmbedStylesSetterMap_registry:
  "reactStylesStateSetters (store (removeFromEmbedStylesSetterMap n w)) =
     filter (\<lambda>p. fst p \<noteq> n) (reactStylesStateSetters (store w))"
  "setterCalls (removeFromEmbedStylesSetterMap n w) = setterCalls w"
  "reactState (removeFromEmbedStylesSetterMap n w) = reactState w"
  by (simp_all add: removeFromEmbedStylesSetterMap_def)

lemma registerNewSetter_registry:
  "reactStylesStateSetters (store (registerNewSetter n s w)) =
     assign n s (reactStylesStateSetters (store w))"
  "setterCalls (registerNewSetter n s w) = setterCalls w @ [s]"
  by (simp_all add: registerNewSetter_def callSetter_def Let_def)

text \<open>
  C3, as the code has it: a broadcast leaves the registrations alone and calls the setter of
  every currently registered target once, in the order of registration, and no other
  setter. Each of these subscribers then holds its previous state overlaid with the new
  configuration target by target: a target of the new configuration replaces the previous
  attribute set of that target as a whole, every other target is kept. A subscriber that
  is not registered keeps its state. Registering a target puts its setter among those a
  broadcast calls; \<open>removeFromEmbedStylesSetterMap\<close> takes the target out, so that the next
  broadcast calls the setters of the other targets only, and a setter that was registered
  for the removed target alone is not called and keeps its state.
\<close>

theorem setEmbedStyles_broadcast:
  "reactStylesStateSetters (store (setEmbedStyles c w)) = reactStylesStateSetters (store w) \<and>
   setterCalls (setEmbedStyles c w) = setterCalls w @ map snd (reactStylesStateSetters (store w)) \<and>
   (\<forall>r. r \<notin> snd ` set (reactStylesStateSetters (store w)) \<longrightarrow>
        reactState (setEmbedStyles c w) r = reactState w r) \<and>
   (\<forall>(m, r) \<in> set (reactStylesStateSetters (store w)).
        reactState (setEmbedStyles c w) r = reactState w r ++ c \<and>
        (\<forall>t. reactState (setEmbedStyles c w) r t =
              (case c t of None \<Rightarrow> reactState w r t | Some props \<Rightarrow> Some props))) \<and>
   (n, s) \<in> set (reactStylesStateSetters (store (registerNewSetter n s w))) \<and>
   setterCalls (setEmbedStyles c (registerNewSetter n s w)) =
     setterCalls w @ [s] @ map snd (assign n s (reactStylesStateSetters (store w))) \<and>
   n \<notin> fst ` set (reactStylesStateSetters (store (removeFromEmbedStylesSetterMap n w))) \<and>
   setterCalls (setEmbedStyles c (removeFromEmbedStylesSetterMap n w)) =
     setterCalls w @ map snd (filter (\<lambda>p. fst p \<noteq> n) (reactStylesStateSetters (store w))) \<and>
   (\<forall>r. (\<forall>m. (m, r) \<in> set (reactStylesStateSetters (store w)) \<longrightarrow> m = n) \<longrightarrow>
        r \<notin> snd ` set (filter (\<lambda>p. fst p \<noteq> n) (reactStylesStateSetters (store w))) \<and>
        reactState (setEmbedStyles c (removeFromEmbedStylesSetterMap n w)) r = reactState w r)"
proof -
  have a: "\<forall>r. r \<notin> snd ` set (reactStylesStateSetters (store w)) \<longrightarrow>
      reactState (setEmbedStyles c w) r = reactState w r"
    by (simp add: setEmbedStyles_state)
  have b: "\<forall>(m, r) \<in> set (reactStylesStateSetters (store w)).
      reactState (setEmbedStyles c w) r = reactState w r ++ c \<and>
      (\<forall>t. reactState (setEmbedStyles c w) r t =
            (case c t of None \<Rightarrow> reactState w r t | Some props \<Rightarrow> Some props))"
    by (auto simp: setEmbedStyles_state map_add_def image_iff split: option.splits)
  have d: "n \<notin> fst ` set (reactStylesStateSetters (store (removeFromEmbedStylesSetterMap n w)))"
    by (auto simp: removeFromEmbedStylesSetterMap_registry)
  have e: "r \<notin> snd ` set (filter (\<lambda>p. fst p \<noteq> n) (reactStylesStateSetters (store w))) \<and>
      reactState (setEmbedStyles c (removeFromEmbedStylesSetterMap n w)) r = reactState w r"
    if "\<forall>m. (m, r) \<in> set (reactStylesStateSetters (store w)) \<longrightarrow> m = n" for r
  proof -
    have "r \<notin> snd ` set (filter (\<lambda>p. fst p \<noteq> n) (reactStylesStateSetters (store w)))"
      using that by force
    then show ?thesis
      by (simp add: setEmbedStyles_state removeFromEmbedStylesSetterMap_registry)
  qed
  show ?thesis
    using a b d e
    by (simp add: assign_member registerNewSetter_registry
        removeFromEmbedStylesSetterMap_registry)
qed

text \<open>
  The statement above with two subscribers, registered for \<open>eventTypeListItem\<close> and for the
  body: a broadcast calls both; after the first target was removed, a broadcast calls the
  setter of the body alone and the other subscriber keeps its empty state.
\<close>

theorem setEmbedStyles_broadcast_witness:
  "setterCalls (setEmbedStyles redOnly
      (registerNewSetter body 4 (registerNewSetter eventTypeListItem 3 (initialWorld exampleEnv))))
     = [3, 4, 3, 4] \<and>
   setterCalls (setEmbedStyles redOnly (removeFromEmbedStylesSetterMap eventTypeListItem
      (registerNewSetter body 4 (registerNewSetter eventTypeListItem 3 (initialWorld exampleEnv)))))
     = [3, 4, 4] \<and>
   reactState (setEmbedStyles redOnly (removeFromEmbedStylesSetterMap eventTypeListItem
      (registerNewSetter body 4 (registerNewSetter eventTypeListItem 3 (initialWorld exampleEnv)))))
      3 = Map.empty \<and>
   reactState (setEmbedStyles redOnly (removeFromEmbedStylesSetterMap eventTypeListItem
      (registerNewSetter body 4 (registerNewSetter eventTypeListItem 3 (initialWorld exampleEnv)))))
      4 body = Some [(''background'', ''white'')]"
proof -
  let ?w = "registerNewSetter body 4 (registerNewSetter eventTypeListItem 3 (initialWorld exampleEnv))"
  let ?v = "removeFromEmbedStylesSetterMap eventTypeListItem ?w"
  have r: "reactStylesStateSetters (store ?w) = [(eventTypeListItem, 3), (body, 4)]"
    by (simp add: registerNewSetter_registry)
  have k: "setterCalls ?w = [3, 4]"
    by (simp add: registerNewSetter_registry)
  have s3: "reactState ?w 3 = Map.empty" and s4: "reactState ?w 4 = Map.empty"
    by (simp_all add: registerNewSetter_def callSetter_def Let_def initialWorld_def)
  have rv: "reactStylesStateSetters (store ?v) = [(body, 4)]"
    by (simp add: removeFromEmbedStylesSetterMap_registry r)
  have sv: "reactState ?v 4 = Map.empty"
    by (simp add: removeFromEmbedStylesSetterMap_registry s4)
  have only: "\<forall>m. (m, 3) \<in> set (reactStylesStateSetters (store ?w)) \<longrightarrow> m = eventTypeListItem"
    by (simp add: r)
  note t = setEmbedStyles_broadcast [where c = redOnly and w = ?w and n = eventTypeListItem]
  have 1: "setterCalls (setEmbedStyles redOnly ?w) = [3, 4, 3, 4]"
    using t by (simp add: r k)
  have 2: "setterCalls (setEmbedStyles redOnly ?v) = [3, 4, 4]"
    using t by (simp add: r k)
  have 3: "reactState (setEmbedStyles redOnly ?v) 3 = Map.empty"
    using t only s3 by simp
  have "(body, 4) \<in> set (reactStylesStateSetters (store ?v))"
    by (simp add: rv)
  with setEmbedStyles_broadcast [where c = redOnly and w = ?v]
  have "reactState (setEmbedStyles redOnly ?v) 4 = reactState ?v 4 ++ redOnly"
    by blast
  then have 4: "reactState (setEmbedStyles redOnly ?v) 4 body = Some [(''background'', ''white'')]"
    by (simp add: sv redOnly_def)
  from 1 2 3 4 show ?thesis by blast
qed

section \<open>Messages the listener does not know\<close>

text \<open>
  A message whose originator is not \<open>"CAL"\<close> or whose method is not a string changes nothing,
  and neither does a method name that \<open>methods\<close> does not have.
\<close>

lemma onMessage_ignored:
  "originator m \<noteq> JStr ''CAL'' \<or> (\<forall>name. methodField m \<noteq> JStr name) \<Longrightarrow> onMessage (Some m) w = w"
  by (auto simp: onMessage_def split: jsval.splits)

lemma onMessage_absent:
  "methods name = Absent \<Longrightarrow> onMessage (Some \<lparr>originator = JStr ''CAL'', methodField = JStr name, arg = a\<rparr>) w = w"
  by (simp add: onMessage_def callMethod_def)

text \<open>
  C7, at the input where the code fails: the message has the originator \<open>"CAL"\<close> and the
  method \<open>"__proto__"\<close>, which names no instruction. \<open>methods["__proto__"]\<close> is the prototype
  object, the optional call does not skip it, and the listener throws a TypeError.
\<close>

theorem onMessage_proto_throws:
  "errors (onMessage (Some \<lparr>originator = JStr ''CAL'', methodField = JStr ''__proto__'', arg = a\<rparr>) w)
     = errors w @ [TypeError]"
  by (simp add: onMessage_def callMethod_def methods_def)

section \<open>The instruction \<open>ui\<close> and the plan\<close>

lemma ui_unset:
  "\<not> truthy (CalComPlan (env w)) \<Longrightarrow>
   ui c w = schedule AnimationFrame (UiRetry c) (log [LStr ''Method: ui called'', LUiConfig c] w)"
  by (simp add: ui_def Let_def)

lemma ui_rejected:
  "truthy (CalComPlan (env w)) \<Longrightarrow> CalComPlan (env w) \<noteq> Some ''PRO'' \<Longrightarrow>
   ui c w = log [LStr ''Upgrade to PRO for \"ui\" instruction to work'', LStr (the (CalComPlan (env w)))]
              (log [LStr ''Method: ui called'', LUiConfig c] w)"
  by (simp add: ui_def Let_def)

lemma ui_applied:
  "CalComPlan (env w) = Some ''PRO'' \<Longrightarrow>
   ui c w = setEmbedStyles (cfg_styles c)
     ((if truthy (bodyBackgroundOf (cfg_styles c))
       then (\<lambda>v. v\<lparr>bodyBackground := bodyBackgroundOf (cfg_styles c)\<rparr>) else (\<lambda>v. v))
      (log [LStr ''Method: ui called'', LUiConfig c] w))"
  by (simp add: ui_def Let_def truthy_def)

lemma styleState_log [simp]: "styleState (log a w) = styleState w"
  by (simp add: styleState_def)

lemma styleState_schedule [simp]: "styleState (schedule s t w) = styleState w"
  by (simp add: styleState_def)

lemma styleState_not_PRO:
  "CalComPlan (env w) \<noteq> Some ''PRO'' \<Longrightarrow> styleState (ui c w) = styleState w"
  by (cases "truthy (CalComPlan (env w))") (simp_all add: ui_unset ui_rejected)

lemma styleState_pending [simp]: "styleState (w\<lparr>pending := ps\<rparr>) = styleState w"
  by (simp add: styleState_def)

lemma styleState_env [simp]: "styleState (w\<lparr>env := e\<rparr>) = styleState w"
  by (simp add: styleState_def)

lemma step_retry:
  "(AnimationFrame, UiRetry c) \<in> set (pending w) \<Longrightarrow>
   step (RunTask AnimationFrame (UiRetry c)) w =
     ui c (w\<lparr>pending := remove1 (AnimationFrame, UiRetry c) (pending w)\<rparr>)"
  by (simp add: step_def runTask_def)

lemma frames_keep:
  "\<not> truthy (CalComPlan (env v)) \<Longrightarrow> (AnimationFrame, UiRetry c) \<in> set (pending v) \<Longrightarrow>
   env (run (frames n c) v) = env v \<and>
   styleState (run (frames n c) v) = styleState v \<and>
   retries c (run (frames n c) v) = retries c v \<and>
   (AnimationFrame, UiRetry c) \<in> set (pending (run (frames n c) v)) \<and>
   reactStylesStateSetters (store (run (frames n c) v)) = reactStylesStateSetters (store v) \<and>
   errors (run (frames n c) v) = errors v \<and>
   fired (run (frames n c) v) = fired v \<and>
   posted (run (frames n c) v) = posted v"
proof (induction n arbitrary: v)
  case 0
  then show ?case by (simp add: frames_def)
next
  case (Suc n)
  let ?v = "step (RunTask AnimationFrame (UiRetry c)) v"
  have v: "?v = ui c (v\<lparr>pending := remove1 (AnimationFrame, UiRetry c) (pending v)\<rparr>)"
    using Suc.prems(2) by (rule step_retry)
  have e: "env ?v = env v" by (simp add: v)
  have "CalComPlan (env v) \<noteq> Some ''PRO''"
    using Suc.prems(1) by (auto simp: truthy_def)
  then have s: "styleState ?v = styleState v"
    by (simp add: v styleState_not_PRO)
  have p: "pending ?v = remove1 (AnimationFrame, UiRetry c) (pending v) @ [(AnimationFrame, UiRetry c)]"
    using Suc.prems(1) by (simp add: v)
  have r: "retries c ?v = retries c v"
    using count_list_remove1_same [OF Suc.prems(2)] by (simp add: retries_def p)
  have o: "reactStylesStateSetters (store ?v) = reactStylesStateSetters (store v)"
    "errors ?v = errors v" "fired ?v = fired v" "posted ?v = posted v"
    by (simp_all add: v ui_store)
  have "\<not> truthy (CalComPlan (env ?v))" "(AnimationFrame, UiRetry c) \<in> set (pending ?v)"
    using Suc.prems(1) by (simp_all add: e p)
  from Suc.IH [OF this] show ?case
    by (simp add: frames_def e s r o)
qed

lemma frames_idle:
  "(AnimationFrame, UiRetry c) \<notin> set (pending v) \<Longrightarrow> run (frames k c) v = v"
  by (induction k) (simp_all add: frames_def step_def)

lemma deferred_facts:
  assumes "\<not> truthy (CalComPlan (env w))"
  shows "env (deferred n c w) = env w"
    and "styleState (deferred n c w) = styleState w"
    and "retries c (deferred n c w) = Suc (retries c w)"
    and "(AnimationFrame, UiRetry c) \<in> set (pending (deferred n c w))"
    and "reactStylesStateSetters (store (deferred n c w)) = reactStylesStateSetters (store w)"
    and "errors (deferred n c w) = errors w"
    and "fired (deferred n c w) = fired w"
    and "posted (deferred n c w) = posted w"
proof -
  let ?v = "ui c w"
  have a: "\<not> truthy (CalComPlan (env ?v))" "(AnimationFrame, UiRetry c) \<in> set (pending ?v)"
    using assms by simp_all
  have "CalComPlan (env w) \<noteq> Some ''PRO''"
    using assms by (auto simp: truthy_def)
  then have b: "styleState ?v = styleState w"
    by (rule styleState_not_PRO)
  have c: "retries c ?v = Suc (retries c w)"
    using assms by (simp add: retries_def)
  have d: "reactStylesStateSetters (store ?v) = reactStylesStateSetters (store w)"
    by (simp add: ui_store)
  note k = frames_keep [OF a, where n = n]
  show "env (deferred n c w) = env w" using k by (simp add: deferred_def)
  show "styleState (deferred n c w) = styleState w" using k b by (simp add: deferred_def)
  show "retries c (deferred n c w) = Suc (retries c w)" using k c by (simp add: deferred_def)
  show "(AnimationFrame, UiRetry c) \<in> set (pending (deferred n c w))"
    using k by (simp add: deferred_def)
  show "reactStylesStateSetters (store (deferred n c w)) = reactStylesStateSetters (store w)"
    using k d by (simp add: deferred_def)
  show "errors (deferred n c w) = errors w" using k by (simp add: deferred_def)
  show "fired (deferred n c w) = fired w" using k by (simp add: deferred_def)
  show "posted (deferred n c w) = posted w" using k by (simp add: deferred_def)
qed

lemma afterPlan_eq:
  assumes "\<not> truthy (CalComPlan (env w))"
  shows "afterPlan n c p w =
     ui c ((deferred n c w)\<lparr>env := (env w)\<lparr>CalComPlan := Some p\<rparr>,
             pending := remove1 (AnimationFrame, UiRetry c) (pending (deferred n c w))\<rparr>)"
  using deferred_facts(1,4) [OF assms, where n = n and c = c]
  by (simp add: afterPlan_def step_def runTask_def)

lemma afterPlan_retries:
  assumes "\<not> truthy (CalComPlan (env w))" and "p \<noteq> []"
  shows "retries c (afterPlan n c p w) = retries c w"
  using deferred_facts(3,4) [OF assms(1), where n = n and c = c] assms(2)
    count_list_remove1_same [of "(AnimationFrame, UiRetry c)" "pending (deferred n c w)"]
  by (simp add: afterPlan_eq [OF assms(1)] retries_def truthy_def)

lemma afterPlan_rejected:
  assumes "\<not> truthy (CalComPlan (env w))" and "p \<noteq> []" and "p \<noteq> ''PRO''"
  shows "styleState (afterPlan n c p w) = styleState w"
    and "errors (afterPlan n c p w) = errors w"
    and "fired (afterPlan n c p w) = fired w"
    and "posted (afterPlan n c p w) = posted w"
  using deferred_facts(2,6,7,8) [OF assms(1), where n = n and c = c] assms(2,3)
  by (simp_all add: afterPlan_eq [OF assms(1)] styleState_not_PRO)

lemma afterPlan_applied:
  assumes "\<not> truthy (CalComPlan (env w))"
  shows "styles (store (afterPlan n c ''PRO'' w)) = cfg_styles c"
    and "setterCalls (afterPlan n c ''PRO'' w) =
           setterCalls w @ map snd (reactStylesStateSetters (store w))"
    and "reactState (afterPlan n c ''PRO'' w) s =
           (if s \<in> snd ` set (reactStylesStateSetters (store w))
            then reactState w s ++ cfg_styles c else reactState w s)"
    and "bodyBackground (afterPlan n c ''PRO'' w) =
           (if truthy (bodyBackgroundOf (cfg_styles c)) then bodyBackgroundOf (cfg_styles c)
            else bodyBackground w)"
    and "errors (afterPlan n c ''PRO'' w) = errors w"
  using deferred_facts(2,5,6) [OF assms(1), where n = n and c = c]
  by (simp_all add: afterPlan_eq [OF assms(1)] ui_applied setEmbedStyles_state styleState_def)

text \<open>
  C4: a \<open>ui\<close> instruction received while \<open>window.CalComPlan\<close> is unset changes no style, however
  many animation frames pass, and keeps exactly one retry of itself pending. When the
  plan has become \<open>"PRO"\<close>, the next frame applies the instruction: the stored styles are those
  of the instruction, every registered subscriber is called once, the body gets the
  background, and no retry of the instruction is left, so further frames change nothing.
  When the plan has become another tier, the next frame changes no style, raises no error,
  fires no event and leaves no retry either.
\<close>

theorem ui_waits_for_plan:
  assumes "\<not> truthy (CalComPlan (env w))"
  shows "styleState (deferred n c w) = styleState w \<and>
    retries c (deferred n c w) = Suc (retries c w) \<and>
    styles (store (afterPlan n c ''PRO'' w)) = cfg_styles c \<and>
    setterCalls (afterPlan n c ''PRO'' w) =
      setterCalls w @ map snd (reactStylesStateSetters (store w)) \<and>
    (\<forall>s. reactState (afterPlan n c ''PRO'' w) s =
      (if s \<in> snd ` set (reactStylesStateSetters (store w))
       then reactState w s ++ cfg_styles c else reactState w s)) \<and>
    bodyBackground (afterPlan n c ''PRO'' w) =
      (if truthy (bodyBackgroundOf (cfg_styles c)) then bodyBackgroundOf (cfg_styles c)
       else bodyBackground w) \<and>
    retries c (afterPlan n c ''PRO'' w) = retries c w \<and>
    (retries c w = 0 \<longrightarrow>
      run (frames k c) (afterPlan n c ''PRO'' w) = afterPlan n c ''PRO'' w) \<and>
    (p \<noteq> [] \<and> p \<noteq> ''PRO'' \<longrightarrow>
      styleState (afterPlan n c p w) = styleState w \<and>
      retries c (afterPlan n c p w) = retries c w \<and>
      errors (afterPlan n c p w) = errors w \<and>
      fired (afterPlan n c p w) = fired w \<and>
      (retries c w = 0 \<longrightarrow> run (frames k c) (afterPlan n c p w) = afterPlan n c p w))"
proof -
  have idle: "run (frames k c) (afterPlan n c q w) = afterPlan n c q w"
    if "retries c w = 0" and "q \<noteq> []" for q
  proof -
    have "retries c (afterPlan n c q w) = 0"
      using that afterPlan_retries [OF assms, where n = n and c = c and p = q] by simp
    then have "(AnimationFrame, UiRetry c) \<notin> set (pending (afterPlan n c q w))"
      by (simp add: retries_def count_list_0_iff)
    then show ?thesis by (rule frames_idle)
  qed
  show ?thesis
    using deferred_facts(2,3) [OF assms, where n = n and c = c]
      afterPlan_applied [OF assms, where n = n and c = c]
      afterPlan_retries [OF assms, where n = n and c = c]
      afterPlan_rejected [OF assms, where n = n and c = c and p = p] idle
    by simp
qed

text \<open>
  The statement above on a fresh document, with three frames before the plan is set.
\<close>

theorem ui_waits_for_plan_witness:
  "\<not> truthy (CalComPlan (env (initialWorld exampleEnv))) \<and>
   styleState (deferred 3 exampleConfig (initialWorld exampleEnv)) = styleState (initialWorld exampleEnv) \<and>
   styles (store (afterPlan 3 exampleConfig ''PRO'' (initialWorld exampleEnv))) = redOnly \<and>
   bodyBackground (afterPlan 3 exampleConfig ''PRO'' (initialWorld exampleEnv)) = Some ''white'' \<and>
   styleState (afterPlan 3 exampleConfig ''FREE'' (initialWorld exampleEnv))
     = styleState (initialWorld exampleEnv)"
proof -
  have h: "\<not> truthy (CalComPlan (env (initialWorld exampleEnv)))"
    by (simp add: truthy_def exampleEnv_def)
  have c: "cfg_styles exampleConfig = redOnly"
    by (simp add: exampleConfig_def)
  have b: "bodyBackgroundOf redOnly = Some ''white''"
    by (simp add: bodyBackgroundOf_def redOnly_def)
  note t = ui_waits_for_plan [OF h, where n = 3 and c = exampleConfig and p = "''FREE''" and k = 1]
  have 1: "styleState (deferred 3 exampleConfig (initialWorld exampleEnv))
      = styleState (initialWorld exampleEnv)"
    using t by blast
  have 2: "styles (store (afterPlan 3 exampleConfig ''PRO'' (initialWorld exampleEnv))) = redOnly"
    using t c by simp
  have 3: "bodyBackground (afterPlan 3 exampleConfig ''PRO'' (initialWorld exampleEnv)) = Some ''white''"
    using t by (simp add: c b truthy_def)
  have 4: "styleState (afterPlan 3 exampleConfig ''FREE'' (initialWorld exampleEnv))
      = styleState (initialWorld exampleEnv)"
    using t by simp
  from h 1 2 3 4 show ?thesis by blast
qed

section \<open>Prerendering\<close>

text \<open>
  C9: when the URL carries \<open>prerender=true\<close>, the bootstrap leaves the document as it is, and
  after the load, whatever happens in the document, no message has been sent to the parent,
  no callback is pending, and neither the message listener nor the subscription to the
  event bus is installed.
\<close>

theorem prerender_sends_nothing:
  assumes "url_prerender e = Some ''true''"
  shows "(url_prerender (env w) = Some ''true'' \<longrightarrow> bootstrap w = w) \<and>
    posted (loaded e acts) = [] \<and> pending (loaded e acts) = [] \<and>
    \<not> listenerInstalled (loaded e acts) \<and> \<not> busSubscribed (loaded e acts)"
  using dormant_run [OF dormant_moduleInit [OF assms], of acts]
  by (simp add: bootstrap_prerender dormant_def loaded_def)

text \<open>
  The statement above on a document loaded with \<open>?embed=abc&prerender=true\<close>.
\<close>

theorem prerender_sends_nothing_witness:
  "url_prerender (exampleEnv\<lparr>url_prerender := Some ''true''\<rparr>) = Some ''true'' \<and>
   posted (loaded (exampleEnv\<lparr>url_prerender := Some ''true''\<rparr>)
     [RunTask AnimationFrame InformAboutScroll, Message (Some readyAck), BusFire ''bookingSuccessful'']) = []"
proof -
  have h: "url_prerender (exampleEnv\<lparr>url_prerender := Some ''true''\<rparr>) = Some ''true''"
    by simp
  from prerender_sends_nothing [OF h] show ?thesis
    by simp
qed

section \<open>The instruction \<open>ui\<close> and the cached fields\<close>

lemma runTask_uiRetry:
  "filter isUiRetry (pending (runTask t w)) \<noteq> [] \<Longrightarrow>
   filter isUiRetry (pending w) \<noteq> [] \<or> isUiRetry (s, t)"
  by (cases t)
    (simp_all add: runTask_def informAboutScroll_pending_filter unhideBody_def)

lemma filter_remove1_nonempty: "filter P (remove1 x xs) \<noteq> [] \<Longrightarrow> filter P xs \<noteq> []"
  using set_remove1_subset [of x xs] by (auto simp: filter_empty_conv)

lemma step_uiRetry:
  assumes "filter isUiRetry (pending (step a w)) \<noteq> []"
  shows "filter isUiRetry (pending w) \<noteq> [] \<or> listenerInstalled w"
proof (cases a)
  case (Message d)
  with assms show ?thesis by (cases "listenerInstalled w") (simp_all add: step_def)
next
  case (RunTask s t)
  show ?thesis
  proof (cases "(s, t) \<in> set (pending w)")
    case True
    with assms RunTask
    have "filter isUiRetry (pending (runTask t (w\<lparr>pending := remove1 (s, t) (pending w)\<rparr>))) \<noteq> []"
      by (simp add: step_def)
    from runTask_uiRetry [OF this, of s]
    show ?thesis
    proof
      assume "filter isUiRetry (pending (w\<lparr>pending := remove1 (s, t) (pending w)\<rparr>)) \<noteq> []"
      then show ?thesis using filter_remove1_nonempty [of isUiRetry "(s, t)" "pending w"] by simp
    next
      assume "isUiRetry (s, t)"
      with True show ?thesis by (auto simp: filter_empty_conv)
    qed
  next
    case False
    with assms RunTask show ?thesis by (simp add: step_def)
  qed
qed (use assms in \<open>simp_all add: step_def\<close>)

lemma resolvedWhenActive_step:
  assumes "resolvedWhenActive w"
  shows "resolvedWhenActive (step a w)"
  unfolding resolvedWhenActive_def
proof
  assume "listenerInstalled (step a w) \<or> (\<exists>p \<in> set (pending (step a w)). isUiRetry p)"
  then have "listenerInstalled w \<or> filter isUiRetry (pending w) \<noteq> []"
    using step_uiRetry [of a w] by (auto simp: filter_empty_conv)
  then have "namespace (store w) \<noteq> None"
    using assms by (auto simp: resolvedWhenActive_def filter_empty_conv)
  then obtain n where "namespace (store w) = Some n" by auto
  then have "namespace (store (step a w)) = Some n" by (rule ns_step)
  then show "namespace (store (step a w)) \<noteq> None" by simp
qed

lemma resolvedWhenActive_run: "resolvedWhenActive w \<Longrightarrow> resolvedWhenActive (run acts w)"
  by (induction acts arbitrary: w) (simp_all add: resolvedWhenActive_step)

lemma resolvedWhenActive_loaded: "resolvedWhenActive (loaded e acts)"
proof -
  have "resolvedWhenActive (moduleInit (initialWorld e))"
  proof (cases "embedLoad e")
    case True
    then show ?thesis
      by (simp add: resolvedWhenActive_def moduleInit_embed embedLoad_def)
  next
    case False
    then show ?thesis
      using moduleInit_not_embed [of e] by (simp add: resolvedWhenActive_def dormant_def)
  qed
  then show ?thesis
    unfolding loaded_def by (rule resolvedWhenActive_run)
qed

lemma step_keeps_namespace:
  "namespace (store w) \<noteq> None \<Longrightarrow> namespace (store (step a w)) = namespace (store w)"
  using ns_step [of w _ a] by auto

lemma setEmbedStyles_state_fun:
  "reactState (setEmbedStyles c w) =
     (\<lambda>s. if s \<in> snd ` set (reactStylesStateSetters (store w)) then reactState w s ++ c
          else reactState w s)"
  by (rule ext) (rule setEmbedStyles_state)

lemma styleState_setEmbedStyles:
  "styleState v = styleState v' \<Longrightarrow>
   reactStylesStateSetters (store v) = reactStylesStateSetters (store v') \<Longrightarrow>
   styleState (setEmbedStyles c v) = styleState (setEmbedStyles c v')"
  by (simp add: styleState_def setEmbedStyles_state_fun cong: if_cong)

lemma ui_theme_irrelevant:
  "store (ui (c\<lparr>cfg_theme := t\<rparr>) w) = store (ui c w)"
  "styleState (ui (c\<lparr>cfg_theme := t\<rparr>) w) = styleState (ui c w)"
proof -
  show "store (ui (c\<lparr>cfg_theme := t\<rparr>) w) = store (ui c w)"
    by (simp add: ui_store)
  show "styleState (ui (c\<lparr>cfg_theme := t\<rparr>) w) = styleState (ui c w)"
  proof (cases "CalComPlan (env w) = Some ''PRO''")
    case True
    let ?f = "if truthy (bodyBackgroundOf (cfg_styles c))
              then (\<lambda>v. v\<lparr>bodyBackground := bodyBackgroundOf (cfg_styles c)\<rparr>) else (\<lambda>v. v)"
    have a: "ui (c\<lparr>cfg_theme := t\<rparr>) w = setEmbedStyles (cfg_styles c)
        (?f (log [LStr ''Method: ui called'', LUiConfig (c\<lparr>cfg_theme := t\<rparr>)] w))"
      using ui_applied [OF True, of "c\<lparr>cfg_theme := t\<rparr>"] by simp
    have b: "ui c w = setEmbedStyles (cfg_styles c)
        (?f (log [LStr ''Method: ui called'', LUiConfig c] w))"
      by (rule ui_applied [OF True])
    show ?thesis
      unfolding a b by (rule styleState_setEmbedStyles) (simp_all add: styleState_def)
  next
    case False
    then show ?thesis by (simp add: styleState_not_PRO)
  qed
qed

text \<open>
  C10: the handler \<open>ui\<close> does not look at the theme of its argument: the store and the
  styles it leaves are the same for every theme, and the stored theme is the one before the
  call. In a loaded document, a \<open>ui\<close> message and a retry of the instruction leave both the
  stored theme and the stored namespace as they are.
\<close>

theorem ui_ignores_theme:
  "store (ui (c\<lparr>cfg_theme := t\<rparr>) w) = store (ui c w) \<and>
   styleState (ui (c\<lparr>cfg_theme := t\<rparr>) w) = styleState (ui c w) \<and>
   theme (store (ui c w)) = theme (store w) \<and>
   (methodField m = JStr ''ui'' \<longrightarrow>
      theme (store (step (Message (Some m)) (loaded e acts))) = theme (store (loaded e acts)) \<and>
      namespace (store (step (Message (Some m)) (loaded e acts)))
        = namespace (store (loaded e acts))) \<and>
   theme (store (step (RunTask s (UiRetry c)) (loaded e acts))) = theme (store (loaded e acts)) \<and>
   namespace (store (step (RunTask s (UiRetry c)) (loaded e acts)))
     = namespace (store (loaded e acts))"
proof -
  let ?w = "loaded e acts"
  have inv: "resolvedWhenActive ?w" by (rule resolvedWhenActive_loaded)
  have msg: "namespace (store (step (Message d) ?w)) = namespace (store ?w)" for d
  proof (cases "listenerInstalled ?w")
    case True
    with inv have "namespace (store ?w) \<noteq> None" by (simp add: resolvedWhenActive_def)
    then show ?thesis by (rule step_keeps_namespace)
  next
    case False
    then show ?thesis by (simp add: step_def)
  qed
  have retry: "namespace (store (step (RunTask s (UiRetry c)) ?w)) = namespace (store ?w)"
  proof (cases "(s, UiRetry c) \<in> set (pending ?w)")
    case True
    then have "\<exists>p \<in> set (pending ?w). isUiRetry p" by force
    with inv have "namespace (store ?w) \<noteq> None" by (simp add: resolvedWhenActive_def)
    then show ?thesis by (rule step_keeps_namespace)
  next
    case False
    then show ?thesis by (simp add: step_def)
  qed
  have th1: "theme (store (step (Message d) ?w)) = theme (store ?w)" for d
    by (simp add: step_def theme_onMessage)
  have th2: "theme (store (step (RunTask s (UiRetry c)) ?w)) = theme (store ?w)"
    by (simp add: step_def theme_runTask)
  show ?thesis
    by (simp add: ui_theme_irrelevant theme_ui msg retry th1 th2)
qed

text \<open>The statement above on the document loaded with \<open>?embed=abc\<close>.\<close>

theorem ui_ignores_theme_witness:
  "methodField uiMessage = JStr ''ui'' \<and>
   namespace (store (step (Message (Some uiMessage)) (loaded exampleEnv []))) = Some ''abc'' \<and>
   theme (store (step (Message (Some uiMessage)) (loaded exampleEnv []))) = None"
proof -
  have h: "methodField uiMessage = JStr ''ui''"
    by (simp add: uiMessage_def)
  have e: "embedLoad exampleEnv"
    by (simp add: embedLoad_def exampleEnv_def)
  have n: "namespace (store (loaded exampleEnv [])) = Some ''abc''"
    using moduleInit_embed(2) [OF e] by (simp add: loaded_def exampleEnv_def)
  have t: "theme (store (loaded exampleEnv [])) = None"
    by (simp add: loaded_def moduleInit_def bootstrap_def isEmbed_def split_beta Let_def
        theme_fire theme_log theme_runAsap keepParentInformedAboutDimensionChanges_def unhideBody_def)
  from ui_ignores_theme [where m = uiMessage and e = exampleEnv and acts = "[]"] h n t
  show ?thesis by simp
qed

section \<open>The readiness handshake\<close>

lemma methods_ack: "methods name = Own H_parentKnowsIframeReady \<longleftrightarrow> name = ''parentKnowsIframeReady''"
  by (simp add: methods_def)

lemma methods_ui: "methods name = Own H_ui \<longleftrightarrow> name = ''ui''"
  by (simp add: methods_def)

lemma linkReadyFired_simps [simp]:
  "linkReadyFired (log a w) = linkReadyFired w"
  "linkReadyFired (schedule s t w) = linkReadyFired w"
  "linkReadyFired (ui c w) = linkReadyFired w"
  "linkReadyFired (parentKnowsIframeReady w) = linkReadyFired w"
  "linkReadyFired (informAboutScroll w) = linkReadyFired w"
  "linkReadyFired (unhideBody w) = linkReadyFired w"
  "linkReadyFired (w\<lparr>pending := ps\<rparr>) = linkReadyFired w"
  "linkReadyFired (w\<lparr>dw := d\<rparr>) = linkReadyFired w"
  "linkReadyFired (w\<lparr>env := e\<rparr>) = linkReadyFired w"
  "linkReadyFired (w\<lparr>errors := er\<rparr>) = linkReadyFired w"
  "linkReadyFired (tryInformingLinkReady w) =
     (if parentInformedAboutContentHeight (store w) then Suc (linkReadyFired w)
      else linkReadyFired w)"
  by (simp_all add: linkReadyFired_def informAboutScroll_linkReady unhideBody_def)

lemma readyPolls_simps [simp]:
  "readyPolls (log a w) = readyPolls w"
  "readyPolls (ui c w) = readyPolls w"
  "readyPolls (parentKnowsIframeReady w) = Suc (readyPolls w)"
  "readyPolls (informAboutScroll w) = readyPolls w"
  "readyPolls (unhideBody w) = readyPolls w"
  "readyPolls (w\<lparr>dw := d\<rparr>) = readyPolls w"
  "readyPolls (w\<lparr>env := e\<rparr>) = readyPolls w"
  "readyPolls (w\<lparr>errors := er\<rparr>) = readyPolls w"
  "readyPolls (tryInformingLinkReady w) =
     (if parentInformedAboutContentHeight (store w) then readyPolls w
      else Suc (readyPolls w))"
  by (simp_all add: readyPolls_def informAboutScroll_pending_filter unhideBody_def)

lemma onMessage_ready:
  "linkReadyFired (onMessage d w) + readyPolls (onMessage d w) =
     linkReadyFired w + readyPolls w + (if isReadyAck (Message d) then 1 else 0)"
proof (cases d)
  case None
  then show ?thesis by (simp add: onMessage_def)
next
  case (Some m)
  show ?thesis
  proof (cases "methodField m")
    case (JStr name)
    show ?thesis
    proof (cases "originator m = JStr ''CAL''")
      case True
      show ?thesis
      proof (cases "methods name")
        case (Own h)
        then show ?thesis
          using Some JStr True methods_ack [of name] methods_ui [of name]
          by (cases h) (auto simp: onMessage_def callMethod_def)
      qed (use Some JStr True methods_ack [of name] in
          \<open>simp_all add: onMessage_def callMethod_def linkReadyFired_def readyPolls_def\<close>)
    next
      case False
      with Some JStr show ?thesis by (simp add: onMessage_def)
    qed
  qed (use Some in \<open>simp_all add: onMessage_def\<close>)
qed

lemma filter_remove1_length:
  "x \<in> set xs \<Longrightarrow>
   length (filter P (remove1 x xs)) + (if P x then 1 else 0) = length (filter P xs)"
  by (induction xs) auto

lemma runTask_ready:
  assumes "(s, t) \<in> set (pending w)"
  shows "linkReadyFired (runTask t (w\<lparr>pending := remove1 (s, t) (pending w)\<rparr>)) +
         readyPolls (runTask t (w\<lparr>pending := remove1 (s, t) (pending w)\<rparr>)) =
         linkReadyFired w + readyPolls w"
proof -
  let ?v = "w\<lparr>pending := remove1 (s, t) (pending w)\<rparr>"
  have r: "readyPolls ?v + (if isReadyPoll (s, t) then 1 else 0) = readyPolls w"
    using filter_remove1_length [OF assms, of isReadyPoll] by (simp add: readyPolls_def)
  show ?thesis
    using r by (cases t) (simp_all add: runTask_def)
qed

lemma step_ready:
  assumes "listenerInstalled w"
  shows "linkReadyFired (step a w) + readyPolls (step a w) =
         linkReadyFired w + readyPolls w + (if isReadyAck a then 1 else 0)"
proof (cases a)
  case (Message d)
  with assms show ?thesis by (simp add: step_def onMessage_ready)
next
  case (RunTask s t)
  then show ?thesis by (simp add: step_def runTask_ready)
qed (simp_all add: step_def linkReadyFired_def readyPolls_def)

lemma run_ready:
  "listenerInstalled w \<Longrightarrow>
   linkReadyFired (run acts w) + readyPolls (run acts w) =
     linkReadyFired w + readyPolls w + length (filter isReadyAck acts)"
proof (induction acts arbitrary: w)
  case Nil
  then show ?case by simp
next
  case (Cons a acts)
  have "listenerInstalled (step a w)" using Cons.prems by simp
  from Cons.IH [OF this] step_ready [OF Cons.prems, of a]
  show ?case by simp
qed

lemma informAboutScroll_fired: "\<exists>es. fired (informAboutScroll w) = fired w @ es"
  by (simp add: informAboutScroll_def Let_def runAsap_eq asap_def)

lemma runTask_informed:
  "parentInformedAboutContentHeight (store w) \<Longrightarrow>
   parentInformedAboutContentHeight (store (runTask t w))"
  by (cases t) (simp_all add: runTask_def informAboutScroll_informed ui_store unhideBody_def)

lemma runTask_fired: "\<exists>es. fired (runTask t w) = fired w @ es"
proof (cases t)
  case InformAboutScroll
  then show ?thesis using informAboutScroll_fired [of w] by (simp add: runTask_def)
next
  case SettleThenInform
  then show ?thesis
    using informAboutScroll_fired [of "w\<lparr>dw := (dw w)\<lparr>isWindowLoadComplete := True\<rparr>\<rparr>"]
    by (simp add: runTask_def)
qed (simp_all add: runTask_def unhideBody_def)

lemma runTask_display:
  "bodyDisplay (runTask t w) = (if t = UnhideBody then Some ''block'' else bodyDisplay w)"
  by (cases t) (simp_all add: runTask_def unhideBody_def)

lemma runTask_unhide:
  "filter isUnhide (pending (runTask t w)) =
     filter isUnhide (pending w) @
       (if t = TryInformingLinkReady \<and> parentInformedAboutContentHeight (store w)
        then [(AnimationFrame, UnhideBody)] else [])"
  by (cases t) (simp_all add: runTask_def unhideBody_def informAboutScroll_pending_filter)

lemma runTask_poll_fires:
  "parentInformedAboutContentHeight (store w) \<Longrightarrow>
   fired (runTask TryInformingLinkReady w) = fired w @ [LinkReady]"
  by (simp add: runTask_def)

lemma onMessage_unhide:
  "filter isUnhide (pending (onMessage d w)) = filter isUnhide (pending w)"
  by (simp add: onMessage_def callMethod_def
      split: option.splits jsval.splits member.splits handler.splits)

lemma hiddenUntilReady_runTask:
  assumes inv: "hiddenUntilReady w" and mem: "(s, t) \<in> set (pending w)"
  shows "hiddenUntilReady (runTask t (w\<lparr>pending := remove1 (s, t) (pending w)\<rparr>))"
proof -
  let ?v = "w\<lparr>pending := remove1 (s, t) (pending w)\<rparr>"
  obtain es where es: "fired (runTask t ?v) = fired w @ es"
    using runTask_fired [of t ?v] by auto
  have keep: "parentInformedAboutContentHeight (store (runTask t ?v)) \<and>
      LinkReady \<in> set (fired (runTask t ?v))"
    if "parentInformedAboutContentHeight (store w) \<and> LinkReady \<in> set (fired w)"
    using that runTask_informed [of ?v t] by (simp add: es)
  have old: "filter isUnhide (pending ?v) \<noteq> [] \<Longrightarrow> filter isUnhide (pending w) \<noteq> []"
    using filter_remove1_nonempty [of isUnhide "(s, t)" "pending w"] by simp
  show ?thesis
  proof (cases "t = UnhideBody")
    case True
    then have "filter isUnhide (pending w) \<noteq> []"
      using mem by (force simp: filter_empty_conv)
    with inv have "parentInformedAboutContentHeight (store w) \<and> LinkReady \<in> set (fired w)"
      by (simp add: hiddenUntilReady_def)
    from keep [OF this] True show ?thesis
      by (simp add: hiddenUntilReady_def runTask_display)
  next
    case notUnhide: False
    show ?thesis
    proof (cases "t = TryInformingLinkReady \<and> parentInformedAboutContentHeight (store w)")
      case True
      then have "parentInformedAboutContentHeight (store (runTask t ?v))"
        using runTask_informed [of ?v t] by simp
      moreover have "LinkReady \<in> set (fired (runTask t ?v))"
        using True runTask_poll_fires [of ?v] by simp
      ultimately show ?thesis
        using inv notUnhide by (simp add: hiddenUntilReady_def runTask_display)
    next
      case False
      then have "filter isUnhide (pending (runTask t ?v)) = filter isUnhide (pending ?v)"
        by (auto simp: runTask_unhide)
      with inv old keep notUnhide show ?thesis
        by (auto simp: hiddenUntilReady_def runTask_display)
    qed
  qed
qed

lemma hiddenUntilReady_step:
  assumes "hiddenUntilReady w"
  shows "hiddenUntilReady (step a w)"
proof (cases a)
  case (Message d)
  with assms show ?thesis
    by (simp add: step_def hiddenUntilReady_def onMessage_unhide)
next
  case (RunTask s t)
  with assms show ?thesis
    by (simp add: step_def hiddenUntilReady_runTask)
qed (use assms in \<open>simp_all add: step_def hiddenUntilReady_def\<close>)

lemma hiddenUntilReady_run: "hiddenUntilReady w \<Longrightarrow> hiddenUntilReady (run acts w)"
  by (induction acts arbitrary: w) (simp_all add: hiddenUntilReady_step)

lemma runTask_posted:
  assumes "busSubscribed w" and "posted w = fired w"
  shows "posted (runTask t w) = fired (runTask t w)"
  using assms
  by (cases t) (simp_all add: runTask_def informAboutScroll_posted unhideBody_def)

lemma step_posted:
  assumes "busSubscribed w" and "posted w = fired w"
  shows "posted (step a w) = fired (step a w)"
  using assms by (cases a) (simp_all add: step_def runTask_posted)

lemma run_posted:
  "busSubscribed w \<Longrightarrow> posted w = fired w \<Longrightarrow> posted (run acts w) = fired (run acts w)"
proof (induction acts arbitrary: w)
  case Nil
  then show ?case by simp
next
  case (Cons a acts)
  have "busSubscribed (step a w)" using Cons.prems(1) by simp
  from Cons.IH [OF this step_posted [OF Cons.prems]] show ?case by simp
qed

lemma loaded_snoc: "loaded e (acts @ [a]) = step a (loaded e acts)"
  by (simp add: loaded_def run_append)

lemma step_poll:
  assumes "(s, TryInformingLinkReady) \<in> set (pending w)"
  shows "step (RunTask s TryInformingLinkReady) w =
     tryInformingLinkReady (w\<lparr>pending := remove1 (s, TryInformingLinkReady) (pending w)\<rparr>)"
  using assms by (simp add: step_def runTask_def)

lemma step_unhide:
  assumes "(s, UnhideBody) \<in> set (pending w)"
  shows "bodyDisplay (step (RunTask s UnhideBody) w) = Some ''block''"
  using assms by (simp add: step_def runTask_def unhideBody_def)

text \<open>
  C6, where the claim fails: in the document loaded with \<open>?embed=abc\<close> the parent sends
  \<open>parentKnowsIframeReady\<close> twice; both polls find the height reported, and \<open>linkReady\<close> is
  fired, and sent to the parent, twice.
\<close>

theorem linkReady_fires_per_instruction:
  "embedLoad exampleEnv \<and> \<not> isTopWindow exampleEnv \<and>
   length (filter isReadyAck doubleAck) = 2 \<and>
   linkReadyFired (loaded exampleEnv doubleAck) = 2 \<and>
   count_list (posted (loaded exampleEnv doubleAck)) LinkReady = 2 \<and>
   bodyDisplay (loaded exampleEnv doubleAck) = Some ''block''"
  by code_simp

text \<open>
  C6, as the code has it: in a document loaded in an iframe with the \<open>embed\<close> parameter and
  without \<open>prerender=true\<close>, whatever happens: the body is hidden or shown with
  \<open>display: block\<close>, and it is shown only after a \<open>parentKnowsIframeReady\<close> instruction was
  received, the parent was informed about the content height and \<open>linkReady\<close> was fired.
  \<open>linkReady\<close> fires once for each instruction received: every instruction has fired it once
  or is still polling, so it has fired at most as often as instructions were received, and
  exactly once when one instruction was received and the body is shown. Every \<open>linkReady\<close>
  fired was sent to the parent. A poll that finds the height reported fires \<open>linkReady\<close> and
  schedules \<open>unhideBody\<close> for the next frame, a poll that does not polls again, and
  \<open>unhideBody\<close> shows the body.
\<close>

theorem body_hidden_until_ready:
  assumes "embedLoad e" and "\<not> isTopWindow e"
  shows "(bodyDisplay (loaded e acts) = None \<or> bodyDisplay (loaded e acts) = Some ''block'') \<and>
    (bodyDisplay (loaded e acts) = Some ''block'' \<longrightarrow>
       parentInformedAboutContentHeight (store (loaded e acts)) \<and>
       (\<exists>a \<in> set acts. isReadyAck a) \<and> 1 \<le> linkReadyFired (loaded e acts)) \<and>
    linkReadyFired (loaded e acts) + readyPolls (loaded e acts) = length (filter isReadyAck acts) \<and>
    linkReadyFired (loaded e acts) \<le> length (filter isReadyAck acts) \<and>
    (length (filter isReadyAck acts) = 1 \<and> bodyDisplay (loaded e acts) = Some ''block'' \<longrightarrow>
       linkReadyFired (loaded e acts) = 1) \<and>
    count_list (posted (loaded e acts)) LinkReady = linkReadyFired (loaded e acts) \<and>
    ((s, TryInformingLinkReady) \<in> set (pending (loaded e acts)) \<and>
     parentInformedAboutContentHeight (store (loaded e acts)) \<longrightarrow>
       linkReadyFired (loaded e (acts @ [RunTask s TryInformingLinkReady]))
         = Suc (linkReadyFired (loaded e acts)) \<and>
       bodyDisplay (loaded e (acts @ [RunTask s TryInformingLinkReady]))
         = bodyDisplay (loaded e acts) \<and>
       (AnimationFrame, UnhideBody)
         \<in> set (pending (loaded e (acts @ [RunTask s TryInformingLinkReady])))) \<and>
    ((s, TryInformingLinkReady) \<in> set (pending (loaded e acts)) \<and>
     \<not> parentInformedAboutContentHeight (store (loaded e acts)) \<longrightarrow>
       linkReadyFired (loaded e (acts @ [RunTask s TryInformingLinkReady]))
         = linkReadyFired (loaded e acts) \<and>
       bodyDisplay (loaded e (acts @ [RunTask s TryInformingLinkReady]))
         = bodyDisplay (loaded e acts) \<and>
       (asap (loaded e acts), TryInformingLinkReady)
         \<in> set (pending (loaded e (acts @ [RunTask s TryInformingLinkReady])))) \<and>
    ((s, UnhideBody) \<in> set (pending (loaded e acts)) \<longrightarrow>
       bodyDisplay (loaded e (acts @ [RunTask s UnhideBody])) = Some ''block'')"
proof -
  let ?init = "moduleInit (initialWorld e)"
  let ?w = "loaded e acts"
  note i = moduleInit_embed [OF assms(1)]
  have h0: "hiddenUntilReady ?init"
    using assms(2) by (simp add: hiddenUntilReady_def i)
  have h: "hiddenUntilReady ?w"
    unfolding loaded_def using h0 by (rule hiddenUntilReady_run)
  have c0: "linkReadyFired ?init + readyPolls ?init = 0"
    by (simp add: linkReadyFired_def readyPolls_def i)
  have c: "linkReadyFired ?w + readyPolls ?w = length (filter isReadyAck acts)"
    unfolding loaded_def using run_ready [OF i(6), of acts] c0 by simp
  have p: "posted ?w = fired ?w"
    unfolding loaded_def using i(5) i(10) by (rule run_posted)
  have vis: "parentInformedAboutContentHeight (store ?w) \<and> (\<exists>a \<in> set acts. isReadyAck a) \<and>
      1 \<le> linkReadyFired ?w" if "bodyDisplay ?w = Some ''block''"
  proof -
    from h that have a: "parentInformedAboutContentHeight (store ?w)"
      and b: "LinkReady \<in> set (fired ?w)"
      by (simp_all add: hiddenUntilReady_def)
    from b have l: "1 \<le> linkReadyFired ?w"
      using count_list_0_iff [of "fired ?w" LinkReady]
      by (cases "linkReadyFired ?w") (simp_all add: linkReadyFired_def)
    with c have "filter isReadyAck acts \<noteq> []" by auto
    then have "\<exists>a \<in> set acts. isReadyAck a" by (auto simp: filter_empty_conv)
    with a l show ?thesis by simp
  qed
  have d: "bodyDisplay ?w = None \<or> bodyDisplay ?w = Some ''block''"
    using h by (simp add: hiddenUntilReady_def)
  have le: "linkReadyFired ?w \<le> length (filter isReadyAck acts)"
    using c by simp
  have one: "linkReadyFired ?w = 1"
    if "length (filter isReadyAck acts) = 1" and "bodyDisplay ?w = Some ''block''"
    using vis [OF that(2)] le that(1) by simp
  have core: "(bodyDisplay ?w = None \<or> bodyDisplay ?w = Some ''block'') \<and>
    (bodyDisplay ?w = Some ''block'' \<longrightarrow>
       parentInformedAboutContentHeight (store ?w) \<and>
       (\<exists>a \<in> set acts. isReadyAck a) \<and> 1 \<le> linkReadyFired ?w) \<and>
    linkReadyFired ?w + readyPolls ?w = length (filter isReadyAck acts) \<and>
    linkReadyFired ?w \<le> length (filter isReadyAck acts) \<and>
    (length (filter isReadyAck acts) = 1 \<and> bodyDisplay ?w = Some ''block'' \<longrightarrow>
       linkReadyFired ?w = 1) \<and>
    count_list (posted ?w) LinkReady = linkReadyFired ?w"
    using d vis c le one p by (simp add: linkReadyFired_def)
  have polls: "linkReadyFired (loaded e (acts @ [RunTask s TryInformingLinkReady]))
         = Suc (linkReadyFired ?w) \<and>
       bodyDisplay (loaded e (acts @ [RunTask s TryInformingLinkReady])) = bodyDisplay ?w \<and>
       (AnimationFrame, UnhideBody)
         \<in> set (pending (loaded e (acts @ [RunTask s TryInformingLinkReady])))"
    if "(s, TryInformingLinkReady) \<in> set (pending ?w)"
      and "parentInformedAboutContentHeight (store ?w)"
    using that by (simp add: loaded_snoc step_poll)
  have again: "linkReadyFired (loaded e (acts @ [RunTask s TryInformingLinkReady]))
         = linkReadyFired ?w \<and>
       bodyDisplay (loaded e (acts @ [RunTask s TryInformingLinkReady])) = bodyDisplay ?w \<and>
       (asap ?w, TryInformingLinkReady)
         \<in> set (pending (loaded e (acts @ [RunTask s TryInformingLinkReady])))"
    if "(s, TryInformingLinkReady) \<in> set (pending ?w)"
      and "\<not> parentInformedAboutContentHeight (store ?w)"
    using that by (simp add: loaded_snoc step_poll asap_def)
  have shown: "bodyDisplay (loaded e (acts @ [RunTask s UnhideBody])) = Some ''block''"
    if "(s, UnhideBody) \<in> set (pending ?w)"
    using that by (simp add: loaded_snoc step_unhide)
  from core polls again shown show ?thesis by blast
qed

text \<open>
  The statement above on the document loaded with \<open>?embed=abc\<close>: hidden before the
  instruction, exactly one \<open>linkReady\<close> and a visible body after the handshake with one
  instruction.
\<close>

theorem body_hidden_until_ready_witness:
  "embedLoad exampleEnv \<and> \<not> isTopWindow exampleEnv \<and>
   bodyDisplay (loaded exampleEnv (take 2 handshake)) = None \<and>
   linkReadyFired (loaded exampleEnv handshake) + readyPolls (loaded exampleEnv handshake) = 1 \<and>
   linkReadyFired (loaded exampleEnv handshake) = 1 \<and>
   bodyDisplay (loaded exampleEnv handshake) = Some ''block''"
proof -
  have e: "embedLoad exampleEnv" "\<not> isTopWindow exampleEnv"
    by (simp_all add: embedLoad_def exampleEnv_def)
  have n: "\<not> (\<exists>a \<in> set (take 2 handshake). isReadyAck a)"
    by (simp add: handshake_def)
  have k: "length (filter isReadyAck handshake) = 1"
    by (simp add: handshake_def readyAck_def)
  have b: "bodyDisplay (loaded exampleEnv handshake) = Some ''block''"
    by code_simp
  note t = body_hidden_until_ready [OF e]
  from t [where acts = "take 2 handshake"] n
  have 1: "bodyDisplay (loaded exampleEnv (take 2 handshake)) = None" by blast
  from t [where acts = handshake] k
  have 2: "linkReadyFired (loaded exampleEnv handshake) + readyPolls (loaded exampleEnv handshake) = 1"
    by simp
  from t [where acts = handshake] k b
  have 3: "linkReadyFired (loaded exampleEnv handshake) = 1"
    by blast
  from e 1 2 3 b show ?thesis by simp
qed

section \<open>The wake-ups of the watcher\<close>

lemma informAboutScroll_waiting:
  "\<not> readyStateComplete (env w) \<Longrightarrow> informAboutScroll w = runAsap InformAboutScroll w"
  by (simp add: informAboutScroll_def)

lemma informAboutScroll_settling:
  "readyStateComplete (env w) \<Longrightarrow> \<not> isWindowLoadComplete (dw w) \<Longrightarrow>
   informAboutScroll w = schedule (Timeout 10) SettleThenInform w"
  by (simp add: informAboutScroll_def)

lemma informAboutScroll_sample:
  assumes "readyStateComplete (env w)" and "isWindowLoadComplete (dw w)"
  shows "dw (informAboutScroll w) =
      \<lparr>knownIframeHeight = Some (iframeHeight w), numDimensionChanges = nextCount w,
       isFirstTime = False, isWindowLoadComplete = True\<rparr>"
    and "dimensionEvents (informAboutScroll w) =
      dimensionEvents w @
        (if knownIframeHeight (dw w) \<noteq> Some (iframeHeight w)
         then [DimensionChanged (iframeHeight w) (iframeWidth w) (isFirstTime (dw w))] else [])"
    and "watcherTasks (informAboutScroll w) =
      watcherTasks w @ (if 50 < nextCount w then [] else [(asap w, InformAboutScroll)])"
    and "warnings (informAboutScroll w) =
      warnings w @ (if 50 < nextCount w then [tooMany] else [])"
    and "parentInformedAboutContentHeight (store (informAboutScroll w))"
  using assms
  by (auto simp: informAboutScroll_def Let_def runAsap_eq asap_def iframeHeight_def
      iframeWidth_def nextCount_def dimensionEvents_def watcherTasks_def warnings_def
      tooMany_def isWarning_def)

lemma settled_update:
  "isWindowLoadComplete d \<Longrightarrow> d\<lparr>isWindowLoadComplete := True\<rparr> = d"
  by (cases d) simp

lemma watcherTasks_member:
  "watcherTasks w = [p] \<Longrightarrow> p \<in> set (pending w) \<and> filter isWatcherTask (remove1 p (pending w)) = []"
proof -
  assume a: "watcherTasks w = [p]"
  then have "p \<in> set (filter isWatcherTask (pending w))"
    by (simp add: watcherTasks_def)
  then have m: "p \<in> set (pending w)" by simp
  have "filter isWatcherTask (remove1 p (pending w)) = remove1 p (filter isWatcherTask (pending w))"
    by (rule filter_remove1)
  with a m show ?thesis by (simp add: watcherTasks_def)
qed

lemma tick_sample:
  assumes "sampling w"
  shows "env (tick (sh, sw, oh, ow) w) =
      (env w)\<lparr>scrollHeight := sh, scrollWidth := sw, offsetHeight := oh, offsetWidth := ow\<rparr>"
    and "dw (tick (sh, sw, oh, ow) w) =
      \<lparr>knownIframeHeight = Some (if isFirstTime (dw w) then sh else oh),
       numDimensionChanges =
         (if knownIframeHeight (dw w) \<noteq> Some (if isFirstTime (dw w) then sh else oh)
          then Suc (numDimensionChanges (dw w)) else numDimensionChanges (dw w)),
       isFirstTime = False, isWindowLoadComplete = True\<rparr>"
    and "dimensionEvents (tick (sh, sw, oh, ow) w) =
      dimensionEvents w @
        (if knownIframeHeight (dw w) \<noteq> Some (if isFirstTime (dw w) then sh else oh)
         then [if isFirstTime (dw w) then DimensionChanged sh sw True
               else DimensionChanged oh ow False]
         else [])"
    and "watcherTasks (tick (sh, sw, oh, ow) w) =
      (if 50 < (if knownIframeHeight (dw w) \<noteq> Some (if isFirstTime (dw w) then sh else oh)
                then Suc (numDimensionChanges (dw w)) else numDimensionChanges (dw w))
       then [] else [(asap w, InformAboutScroll)])"
    and "warnings (tick (sh, sw, oh, ow) w) =
      warnings w @
        (if 50 < (if knownIframeHeight (dw w) \<noteq> Some (if isFirstTime (dw w) then sh else oh)
                  then Suc (numDimensionChanges (dw w)) else numDimensionChanges (dw w))
         then [tooMany] else [])"
    and "parentInformedAboutContentHeight (store (tick (sh, sw, oh, ow) w))"
proof -
  obtain p where p: "watcherTasks w = [p]"
    and pc: "p = (Timeout 10, SettleThenInform) \<or>
             isWindowLoadComplete (dw w) \<and> p = (asap w, InformAboutScroll)"
    using assms by (auto simp: sampling_def)
  have m: "p \<in> set (pending w)" and r: "filter isWatcherTask (remove1 p (pending w)) = []"
    using watcherTasks_member [OF p] by simp_all
  define v where "v = w\<lparr>env := (env w)\<lparr>scrollHeight := sh, scrollWidth := sw,
      offsetHeight := oh, offsetWidth := ow\<rparr>, pending := remove1 p (pending w),
      dw := (dw w)\<lparr>isWindowLoadComplete := True\<rparr>\<rparr>"
  have t: "tick (sh, sw, oh, ow) w = informAboutScroll v"
    using pc
  proof
    assume "p = (Timeout 10, SettleThenInform)"
    then show ?thesis
      using p m by (simp add: tick_def step_def runTask_def v_def)
  next
    assume "isWindowLoadComplete (dw w) \<and> p = (asap w, InformAboutScroll)"
    then show ?thesis
      using p m by (simp add: tick_def step_def runTask_def v_def settled_update)
  qed
  have v1: "readyStateComplete (env v)" "isWindowLoadComplete (dw v)"
    using assms by (simp_all add: v_def sampling_def)
  have v2: "watcherTasks v = []" "dimensionEvents v = dimensionEvents w"
    "warnings v = warnings w" "asap v = asap w"
    "iframeHeight v = (if isFirstTime (dw w) then sh else oh)"
    "iframeWidth v = (if isFirstTime (dw w) then sw else ow)"
    "knownIframeHeight (dw v) = knownIframeHeight (dw w)"
    "numDimensionChanges (dw v) = numDimensionChanges (dw w)"
    "isFirstTime (dw v) = isFirstTime (dw w)"
    "env v = (env w)\<lparr>scrollHeight := sh, scrollWidth := sw, offsetHeight := oh, offsetWidth := ow\<rparr>"
    using r by (simp_all add: v_def watcherTasks_def dimensionEvents_def warnings_def asap_def
        iframeHeight_def iframeWidth_def)
  note s = informAboutScroll_sample [OF v1]
  show "env (tick (sh, sw, oh, ow) w) =
      (env w)\<lparr>scrollHeight := sh, scrollWidth := sw, offsetHeight := oh, offsetWidth := ow\<rparr>"
    by (simp add: t v2)
  show "dw (tick (sh, sw, oh, ow) w) =
      \<lparr>knownIframeHeight = Some (if isFirstTime (dw w) then sh else oh),
       numDimensionChanges =
         (if knownIframeHeight (dw w) \<noteq> Some (if isFirstTime (dw w) then sh else oh)
          then Suc (numDimensionChanges (dw w)) else numDimensionChanges (dw w)),
       isFirstTime = False, isWindowLoadComplete = True\<rparr>"
    by (simp add: t s(1) nextCount_def v2)
  show "dimensionEvents (tick (sh, sw, oh, ow) w) =
      dimensionEvents w @
        (if knownIframeHeight (dw w) \<noteq> Some (if isFirstTime (dw w) then sh else oh)
         then [if isFirstTime (dw w) then DimensionChanged sh sw True
               else DimensionChanged oh ow False]
         else [])"
    by (simp add: t s(2) v2)
  show "watcherTasks (tick (sh, sw, oh, ow) w) =
      (if 50 < (if knownIframeHeight (dw w) \<noteq> Some (if isFirstTime (dw w) then sh else oh)
                then Suc (numDimensionChanges (dw w)) else numDimensionChanges (dw w))
       then [] else [(asap w, InformAboutScroll)])"
    by (simp add: t s(3) nextCount_def v2)
  show "warnings (tick (sh, sw, oh, ow) w) =
      warnings w @
        (if 50 < (if knownIframeHeight (dw w) \<noteq> Some (if isFirstTime (dw w) then sh else oh)
                  then Suc (numDimensionChanges (dw w)) else numDimensionChanges (dw w))
         then [tooMany] else [])"
    by (simp add: t s(4) nextCount_def v2)
  show "parentInformedAboutContentHeight (store (tick (sh, sw, oh, ow) w))"
    by (simp add: t s(5))
qed

lemma tick_stopped: "watcherTasks w = [] \<Longrightarrow> tick d w = w"
  by (simp add: tick_def)

lemma watch_stopped: "watcherTasks w = [] \<Longrightarrow> watch ds w = w"
  by (induction ds) (simp_all add: tick_stopped)

lemma tick_arm:
  assumes "embedLoad e" and "pageOk e" and "readyStateComplete e"
  shows "sampling (tick d (loaded e []))"
    and "dw (tick d (loaded e [])) =
      \<lparr>knownIframeHeight = None, numDimensionChanges = 0, isFirstTime = True,
       isWindowLoadComplete = False\<rparr>"
    and "dimensionEvents (tick d (loaded e [])) = []"
    and "warnings (tick d (loaded e [])) = []"
    and "asap (tick d (loaded e [])) = asap (initialWorld e)"
proof -
  obtain sh sw oh ow where d: "d = (sh, sw, oh, ow)" by (cases d) auto
  let ?w = "moduleInit (initialWorld e)"
  note i = moduleInit_embed [OF assms(1)]
  define v where "v = ?w\<lparr>env := e\<lparr>scrollHeight := sh, scrollWidth := sw,
      offsetHeight := oh, offsetWidth := ow\<rparr>, pending := []\<rparr>"
  have t: "tick d (loaded e []) = informAboutScroll v"
    using assms(2)
    by (simp add: tick_def loaded_def watcherTasks_def i d step_def runTask_def v_def)
  have "readyStateComplete (env v)" "\<not> isWindowLoadComplete (dw v)"
    using assms(2,3) by (simp_all add: v_def i)
  then have u: "tick d (loaded e []) = schedule (Timeout 10) SettleThenInform v"
    by (simp add: t informAboutScroll_settling)
  show "sampling (tick d (loaded e []))"
    using assms(3) by (simp add: u sampling_def watcherTasks_def v_def)
  show "dw (tick d (loaded e [])) =
      \<lparr>knownIframeHeight = None, numDimensionChanges = 0, isFirstTime = True,
       isWindowLoadComplete = False\<rparr>"
    using assms(2) by (simp add: u v_def i)
  show "dimensionEvents (tick d (loaded e [])) = []"
    by (simp add: u v_def i dimensionEvents_def)
  show "warnings (tick d (loaded e [])) = []"
    by (simp add: u v_def i warnings_def)
  show "asap (tick d (loaded e [])) = asap (initialWorld e)"
    by (simp add: u v_def asap_def)
qed

lemma length_reported [simp]: "length (reported f ds) = length ds"
  by (induction f ds rule: reported.induct) simp_all

lemma watch_changing:
  assumes "sampling w"
    and "distinct_adj (heightsFrom (isFirstTime (dw w)) ds)"
    and "ds \<noteq> [] \<longrightarrow>
         knownIframeHeight (dw w) \<noteq> Some (hd (heightsFrom (isFirstTime (dw w)) ds))"
    and "numDimensionChanges (dw w) = k" and "k \<le> 50"
  shows "dimensionEvents (watch ds w) =
           dimensionEvents w @ take (51 - k) (reported (isFirstTime (dw w)) ds) \<and>
         warnings (watch ds w) = warnings w @ (if 51 - k \<le> length ds then [tooMany] else []) \<and>
         (watcherTasks (watch ds w) = [] \<longleftrightarrow> 51 - k \<le> length ds)"
  using assms
proof (induction ds arbitrary: w k)
  case Nil
  then show ?case by (auto simp: sampling_def)
next
  case (Cons d ds)
  obtain sh sw oh ow where d: "d = (sh, sw, oh, ow)" by (cases d) auto
  let ?h = "if isFirstTime (dw w) then sh else oh"
  let ?v = "tick (sh, sw, oh, ow) w"
  have ch: "knownIframeHeight (dw w) \<noteq> Some ?h"
    using Cons.prems(3) by (simp add: d)
  have wv: "watch (d # ds) w = watch ds ?v"
    by (simp add: d)
  note t = tick_sample [OF Cons.prems(1), of sh sw oh ow]
  have dwv: "dw ?v = \<lparr>knownIframeHeight = Some ?h, numDimensionChanges = Suc k,
      isFirstTime = False, isWindowLoadComplete = True\<rparr>"
    using ch Cons.prems(4) by (simp add: t(2))
  let ?e = "if isFirstTime (dw w) then DimensionChanged sh sw True
            else DimensionChanged oh ow False"
  have ev: "dimensionEvents ?v = dimensionEvents w @ [?e]"
    using ch by (simp add: t(3))
  have rep: "reported (isFirstTime (dw w)) (d # ds) = ?e # reported False ds"
    by (simp add: d)
  have k51: "51 - k = Suc (50 - k)"
    using Cons.prems(5) by simp
  show ?case
  proof (cases "k = 50")
    case True
    have "watcherTasks ?v = []" "warnings ?v = warnings w @ [tooMany]"
      using ch Cons.prems(4) True by (simp_all add: t(4) t(5))
    moreover from this have "watch ds ?v = ?v" by (simp add: watch_stopped)
    ultimately show ?thesis
      using True ev rep by (simp add: wv del: watch.simps)
  next
    case False
    then have k: "Suc k \<le> 50" using Cons.prems(5) by simp
    have wt: "watcherTasks ?v = [(asap w, InformAboutScroll)]" and wn: "warnings ?v = warnings w"
      using ch Cons.prems(4) k by (simp_all add: t(4) t(5))
    have "asap ?v = asap w" by (simp add: asap_def t(1))
    moreover have "readyStateComplete (env ?v)"
      using Cons.prems(1) by (simp add: t(1) sampling_def)
    ultimately have s: "sampling ?v"
      by (simp add: sampling_def wt dwv)
    have hne: "heightsFrom False ds = [] \<longleftrightarrow> ds = []"
      by (cases ds) auto
    have da: "distinct_adj (heightsFrom (isFirstTime (dw ?v)) ds)"
      using Cons.prems(2) by (auto simp: dwv d distinct_adj_Cons)
    have hd: "ds \<noteq> [] \<longrightarrow>
        knownIframeHeight (dw ?v) \<noteq> Some (hd (heightsFrom (isFirstTime (dw ?v)) ds))"
      using Cons.prems(2) hne by (auto simp: dwv d distinct_adj_Cons)
    have n: "numDimensionChanges (dw ?v) = Suc k" by (simp add: dwv)
    from Cons.IH [OF s da hd n k]
    have "dimensionEvents (watch ds ?v) =
        dimensionEvents ?v @ take (51 - Suc k) (reported False ds)"
      and "warnings (watch ds ?v) =
        warnings ?v @ (if 51 - Suc k \<le> length ds then [tooMany] else [])"
      and "watcherTasks (watch ds ?v) = [] \<longleftrightarrow> 51 - Suc k \<le> length ds"
      by (simp_all add: dwv)
    then show ?thesis
      using ev rep wn k51 k
      by (auto simp add: wv simp del: reported.simps watch.simps)
  qed
qed

lemma informAboutScroll_bounded:
  assumes "length (dimensionEvents v) = numDimensionChanges (dw v)"
    and "watcherTasks v = []" and "numDimensionChanges (dw v) \<le> 50" and "warnings v = []"
  shows "bounded (informAboutScroll v)"
proof (cases "readyStateComplete (env v)")
  case False
  then show ?thesis
    using assms
    by (simp add: informAboutScroll_waiting runAsap_eq bounded_def dimensionEvents_def
        watcherTasks_def warnings_def)
next
  case ready: True
  show ?thesis
  proof (cases "isWindowLoadComplete (dw v)")
    case False
    then show ?thesis
      using assms ready
      by (simp add: informAboutScroll_settling bounded_def dimensionEvents_def
          watcherTasks_def warnings_def)
  next
    case True
    note s = informAboutScroll_sample [OF ready True]
    have n: "nextCount v \<le> Suc (numDimensionChanges (dw v))"
      "numDimensionChanges (dw v) \<le> nextCount v"
      by (simp_all add: nextCount_def)
    show ?thesis
      using assms n
      by (auto simp: bounded_def s nextCount_def)
  qed
qed

lemma watcherTasks_remove1:
  "watcherTasks (w\<lparr>pending := remove1 p (pending w)\<rparr>) = remove1 p (watcherTasks w)"
  by (simp add: watcherTasks_def filter_remove1)

lemma tryInformingLinkReady_warnings:
  "filter isWarning (console (tryInformingLinkReady w)) = filter isWarning (console w)"
  by (simp add: tryInformingLinkReady_def runAsap_eq)

lemma parentKnowsIframeReady_warnings:
  "filter isWarning (console (parentKnowsIframeReady w)) = filter isWarning (console w)"
  by (simp add: parentKnowsIframeReady_def runAsap_eq)

lemma onMessage_watcher:
  "filter isWatcherTask (pending (onMessage d w)) = filter isWatcherTask (pending w)"
  "filter isWarning (console (onMessage d w)) = filter isWarning (console w)"
  by (simp_all add: onMessage_def callMethod_def parentKnowsIframeReady_warnings
      split: option.splits jsval.splits member.splits handler.splits)

lemma runTask_other:
  assumes "\<not> isWatcherTask (s, t)"
  shows "dimensionEvents (runTask t w) = dimensionEvents w"
    and "dw (runTask t w) = dw w"
    and "watcherTasks (runTask t w) = watcherTasks w"
    and "warnings (runTask t w) = warnings w"
  using assms
  by (cases t; simp add: runTask_def dimensionEvents_def watcherTasks_def warnings_def
      unhideBody_def tryInformingLinkReady_warnings)+

lemma bounded_cong:
  "dimensionEvents v = dimensionEvents w \<Longrightarrow> dw v = dw w \<Longrightarrow>
   watcherTasks v = watcherTasks w \<Longrightarrow> warnings v = warnings w \<Longrightarrow>
   bounded w \<Longrightarrow> bounded v"
  by (simp add: bounded_def)

lemma bounded_runTask_other:
  assumes inv: "bounded w" and other: "\<not> isWatcherTask (s, t)"
  shows "bounded (runTask t (w\<lparr>pending := remove1 (s, t) (pending w)\<rparr>))"
proof -
  let ?v = "w\<lparr>pending := remove1 (s, t) (pending w)\<rparr>"
  have "(s, t) \<notin> set (watcherTasks w)"
    using other by (simp add: watcherTasks_def)
  then have 1: "watcherTasks ?v = watcherTasks w"
    by (simp add: watcherTasks_remove1 remove1_idem)
  have 2: "dimensionEvents ?v = dimensionEvents w"
    by (simp add: dimensionEvents_def)
  have 3: "warnings ?v = warnings w"
    by (simp add: warnings_def)
  have 4: "dw ?v = dw w"
    by simp
  note r = runTask_other [OF other, of ?v]
  show ?thesis
  proof (rule bounded_cong [OF _ _ _ _ inv])
    show "dimensionEvents (runTask t ?v) = dimensionEvents w"
      unfolding r(1) by (rule 2)
    show "dw (runTask t ?v) = dw w"
      unfolding r(2) by (rule 4)
    show "watcherTasks (runTask t ?v) = watcherTasks w"
      unfolding r(3) by (rule 1)
    show "warnings (runTask t ?v) = warnings w"
      unfolding r(4) by (rule 3)
  qed
qed

lemma bounded_runTask_watcher:
  assumes inv: "bounded w" and mem: "(s, t) \<in> set (pending w)" and True: "isWatcherTask (s, t)"
  shows "bounded (runTask t (w\<lparr>pending := remove1 (s, t) (pending w)\<rparr>))"
proof -
  let ?v = "w\<lparr>pending := remove1 (s, t) (pending w)\<rparr>"
  have "(s, t) \<in> set (watcherTasks w)"
    using True mem by (simp add: watcherTasks_def)
  moreover have "length (watcherTasks w) \<le> 1"
    using inv by (simp add: bounded_def)
  ultimately have one: "watcherTasks w = [(s, t)]"
    by (cases "watcherTasks w") auto
  then have n: "numDimensionChanges (dw w) \<le> 50"
    using inv by (auto simp: bounded_def)
  have e: "length (dimensionEvents w) = numDimensionChanges (dw w)"
    using inv by (simp add: bounded_def)
  have g: "warnings w = []"
    using inv n by (simp add: bounded_def)
  have v1: "length (dimensionEvents ?v) = numDimensionChanges (dw ?v)"
    using e by (simp add: dimensionEvents_def)
  have v2: "watcherTasks ?v = []"
    by (simp add: watcherTasks_remove1 one)
  have v3: "numDimensionChanges (dw ?v) \<le> 50"
    using n by simp
  have v4: "warnings ?v = []"
    using g by (simp add: warnings_def)
  from True consider "t = InformAboutScroll" | "t = SettleThenInform"
    by (cases t) simp_all
  then show ?thesis
  proof cases
    case 1
    then show ?thesis
      using informAboutScroll_bounded [OF v1 v2 v3 v4] by (simp add: runTask_def)
  next
    case 2
    let ?u = "?v\<lparr>dw := (dw ?v)\<lparr>isWindowLoadComplete := True\<rparr>\<rparr>"
    have u1: "length (dimensionEvents ?u) = numDimensionChanges (dw ?u)"
      using e by (simp add: dimensionEvents_def)
    have u2: "watcherTasks ?u = []"
      using v2 by (simp add: watcherTasks_def)
    have u3: "numDimensionChanges (dw ?u) \<le> 50"
      using n by simp
    have u4: "warnings ?u = []"
      using g by (simp add: warnings_def)
    have "runTask t ?v = informAboutScroll ?u"
      using 2 by (simp add: runTask_def)
    then show ?thesis
      using informAboutScroll_bounded [OF u1 u2 u3 u4] by simp
  qed
qed

lemma bounded_runTask:
  assumes "bounded w" and "(s, t) \<in> set (pending w)"
  shows "bounded (runTask t (w\<lparr>pending := remove1 (s, t) (pending w)\<rparr>))"
  using assms bounded_runTask_other bounded_runTask_watcher
  by (cases "isWatcherTask (s, t)") blast+

lemma bounded_step:
  assumes "bounded w"
  shows "bounded (step a w)"
proof (cases a)
  case (RunTask s t)
  with assms show ?thesis by (simp add: step_def bounded_runTask)
qed (use assms in \<open>simp_all add: step_def bounded_def dimensionEvents_def watcherTasks_def
      warnings_def onMessage_watcher\<close>)

lemma bounded_run: "bounded w \<Longrightarrow> bounded (run acts w)"
  by (induction acts arbitrary: w) (simp_all add: bounded_step)

lemma bootstrap_failed_dw:
  "\<not> pageOk (env w) \<Longrightarrow> dw (bootstrap w) = dw w"
  by (simp add: bootstrap_def isEmbed_def split_beta Let_def pageOk_def unhideBody_def)

lemma initialWorld_dw [simp]:
  "dw (initialWorld e) =
     \<lparr>knownIframeHeight = None, numDimensionChanges = 0, isFirstTime = True,
      isWindowLoadComplete = False\<rparr>"
  by (simp add: initialWorld_def)

lemma moduleInit_dw:
  "dw (moduleInit (initialWorld e)) =
     \<lparr>knownIframeHeight = None, numDimensionChanges = 0, isFirstTime = True,
      isWindowLoadComplete = False\<rparr>"
proof (cases "embedLoad e \<and> pageOk e")
  case True
  then show ?thesis by (simp add: moduleInit_embed)
next
  case False
  let ?v = "if isSafariBrowser e
            then log [LStr ''Safari Detected: Using setTimeout instead of rAF''] (initialWorld e)
            else initialWorld e"
  have m: "moduleInit (initialWorld e) = bootstrap ?v"
    by (simp add: moduleInit_def)
  have v: "dw ?v = dw (initialWorld e)" "env ?v = e" by simp_all
  show ?thesis
  proof (cases "url_prerender e = Some ''true''")
    case True
    then show ?thesis by (simp add: m bootstrap_prerender)
  next
    case p: False
    show ?thesis
    proof (cases "fst (getNamespace ?v) = None")
      case True
      have "url_prerender (env ?v) \<noteq> Some ''true''" using p by simp
      from bootstrap_not_embed [OF this True] show ?thesis by (simp add: m)
    next
      case n: False
      then have "embedLoad e"
        using p by (auto simp: embedLoad_def getNamespace_def isValidNamespace_def Let_def
            split: if_splits)
      with False have "\<not> pageOk (env ?v)" by simp
      from bootstrap_failed_dw [OF this] show ?thesis by (simp add: m)
    qed
  qed
qed

lemma bounded_loaded: "bounded (loaded e acts)"
proof -
  let ?w = "moduleInit (initialWorld e)"
  have "bounded ?w"
  proof (cases "embedLoad e")
    case True
    note i = moduleInit_embed [OF True]
    show ?thesis
      by (simp add: bounded_def moduleInit_dw dimensionEvents_def watcherTasks_def
          warnings_def i)
  next
    case False
    from moduleInit_not_embed [OF False]
    have p: "pending ?w = []" and s: "\<not> busSubscribed ?w"
      by (simp_all add: dormant_def)
    have "fired ?w = []" and "filter isWarning (console ?w) = []"
    proof -
      let ?v = "if isSafariBrowser e
            then log [LStr ''Safari Detected: Using setTimeout instead of rAF''] (initialWorld e)
            else initialWorld e"
      have m: "?w = bootstrap ?v" by (simp add: moduleInit_def)
      have b: "bootstrap ?v = ?v \<or> bootstrap ?v = snd (getNamespace ?v)"
      proof (cases "url_prerender e = Some ''true''")
        case True
        then show ?thesis by (simp add: bootstrap_prerender)
      next
        case q: False
        then have "fst (getNamespace ?v) = None"
          using False
          by (simp add: embedLoad_def getNamespace_def isValidNamespace_def Let_def)
        moreover have "url_prerender (env ?v) \<noteq> Some ''true''" using q by simp
        ultimately show ?thesis using bootstrap_not_embed by blast
      qed
      from b show "fired ?w = []" unfolding m by auto
      from b show "filter isWarning (console ?w) = []" unfolding m by auto
    qed
    then show ?thesis
      by (simp add: bounded_def moduleInit_dw dimensionEvents_def watcherTasks_def
          warnings_def p)
  qed
  then show ?thesis
    unfolding loaded_def by (rule bounded_run)
qed

lemma watch_from_load:
  assumes "embedLoad e" and "pageOk e" and "readyStateComplete e"
    and "distinct_adj (heights ds)"
  shows "dimensionEvents (watch (d # ds) (loaded e [])) = take 51 (reported True ds)"
    and "warnings (watch (d # ds) (loaded e [])) = (if 51 \<le> length ds then [tooMany] else [])"
    and "watcherTasks (watch (d # ds) (loaded e [])) = [] \<longleftrightarrow> 51 \<le> length ds"
proof -
  let ?v = "tick d (loaded e [])"
  note a = tick_arm [OF assms(1,2,3), of d]
  have 1: "distinct_adj (heightsFrom (isFirstTime (dw ?v)) ds)"
    using assms(4) by (simp add: a(2) heights_def)
  have 2: "ds \<noteq> [] \<longrightarrow>
      knownIframeHeight (dw ?v) \<noteq> Some (hd (heightsFrom (isFirstTime (dw ?v)) ds))"
    by (simp add: a(2))
  have 3: "numDimensionChanges (dw ?v) = 0"
    by (simp add: a(2))
  note c = watch_changing [OF a(1) 1 2 3]
  show "dimensionEvents (watch (d # ds) (loaded e [])) = take 51 (reported True ds)"
    using c by (simp add: a(2) a(3))
  show "warnings (watch (d # ds) (loaded e [])) = (if 51 \<le> length ds then [tooMany] else [])"
    using c by (simp add: a(4))
  show "watcherTasks (watch (d # ds) (loaded e [])) = [] \<longleftrightarrow> 51 \<le> length ds"
    using c by simp
qed

lemma tick_sample_keep:
  assumes "sampling w" and "numDimensionChanges (dw w) < 50"
  shows "sampling (tick (sh, sw, oh, ow) w)"
proof -
  note t = tick_sample [OF assms(1), of sh sw oh ow]
  have "asap (tick (sh, sw, oh, ow) w) = asap w"
    by (simp add: asap_def t(1))
  moreover have "readyStateComplete (env (tick (sh, sw, oh, ow) w))"
    using assms(1) by (simp add: t(1) sampling_def)
  ultimately show ?thesis
    using assms(2) by (simp add: sampling_def t(2) t(4))
qed

lemma watch_steady_then_grown:
  assumes "embedLoad e" and "pageOk e" and "readyStateComplete e"
  shows "dimensionEvents
      (watch [d, (500, w1, o1, x1), (s2, y2, 500, x2), (s3, y3, 500, x3), (s4, y4, 800, w4)]
        (loaded e [])) =
      [DimensionChanged 500 w1 True, DimensionChanged 800 w4 False]"
proof -
  let ?a = "tick d (loaded e [])"
  let ?b = "tick (500, w1, o1, x1) ?a"
  let ?c = "tick (s2, y2, 500, x2) ?b"
  let ?d = "tick (s3, y3, 500, x3) ?c"
  let ?e = "tick (s4, y4, 800, w4) ?d"
  note a = tick_arm [OF assms, of d]
  note b = tick_sample [OF a(1), of 500 w1 o1 x1]
  have b2: "dw ?b = \<lparr>knownIframeHeight = Some 500, numDimensionChanges = 1,
      isFirstTime = False, isWindowLoadComplete = True\<rparr>"
    by (simp add: b(2) a(2))
  have b3: "dimensionEvents ?b = [DimensionChanged 500 w1 True]"
    by (simp add: b(3) a(2) a(3))
  have sb: "sampling ?b"
    by (rule tick_sample_keep [OF a(1)]) (simp add: a(2))
  note c = tick_sample [OF sb, of s2 y2 500 x2]
  have c2: "dw ?c = \<lparr>knownIframeHeight = Some 500, numDimensionChanges = 1,
      isFirstTime = False, isWindowLoadComplete = True\<rparr>"
    by (simp add: c(2) b2)
  have c3: "dimensionEvents ?c = [DimensionChanged 500 w1 True]"
    by (simp add: c(3) b2 b3)
  have sc: "sampling ?c"
    by (rule tick_sample_keep [OF sb]) (simp add: b2)
  note d = tick_sample [OF sc, of s3 y3 500 x3]
  have d2: "dw ?d = \<lparr>knownIframeHeight = Some 500, numDimensionChanges = 1,
      isFirstTime = False, isWindowLoadComplete = True\<rparr>"
    by (simp add: d(2) c2)
  have d3: "dimensionEvents ?d = [DimensionChanged 500 w1 True]"
    by (simp add: d(3) c2 c3)
  have sd: "sampling ?d"
    by (rule tick_sample_keep [OF sc]) (simp add: c2)
  note e = tick_sample [OF sd, of s4 y4 800 w4]
  have "dimensionEvents ?e = [DimensionChanged 500 w1 True, DimensionChanged 800 w4 False]"
    by (simp add: e(3) d2 d3)
  then show ?thesis by simp
qed

section \<open>The watcher on the heights 500, 500, 500, 800\<close>

text \<open>
  C2, where the claim fails: on the heights 500, 500, 500, 800 two \<open>dimension-changed\<close>
  events fire, not one: the first sample is reported as well.
\<close>

theorem steady_then_grown_two_events:
  "heights steadyThenGrown = [500, 500, 500, 800] \<and>
   dimensionEvents (watch ((0, 0, 0, 0) # steadyThenGrown) (loaded exampleEnv [])) =
     [DimensionChanged 500 800 True, DimensionChanged 800 800 False]"
  by code_simp

text \<open>
  C2, as the code has it: when the measured heights are 500, 500, 500, 800 (the scroll
  height of the first sample, the offset heights of the others), exactly two
  \<open>dimension-changed\<close> events fire: one for the first sample, with height 500 and
  \<open>isFirstTime = true\<close>, and one on the transition to 800, with \<open>isFirstTime = false\<close>; the
  repeated samples of 500 fire nothing. The first measurement \<open>d\<close> is the wake-up that only
  arms the 10 ms timer.
\<close>

theorem watcher_first_sample_and_growth:
  assumes "embedLoad e" and "pageOk e" and "readyStateComplete e"
  shows "heights [(500, w1, o1, x1), (s2, y2, 500, x2), (s3, y3, 500, x3), (s4, y4, 800, w4)]
      = [500, 500, 500, 800] \<and>
    dimensionEvents
      (watch [d, (500, w1, o1, x1), (s2, y2, 500, x2), (s3, y3, 500, x3), (s4, y4, 800, w4)]
        (loaded e [])) =
      [DimensionChanged 500 w1 True, DimensionChanged 800 w4 False]"
  using watch_steady_then_grown [OF assms] by (simp add: heights_def)

text \<open>The statement above on the document loaded with \<open>?embed=abc\<close>.\<close>

theorem watcher_first_sample_and_growth_witness:
  "embedLoad exampleEnv \<and> pageOk exampleEnv \<and> readyStateComplete exampleEnv \<and>
   dimensionEvents
     (watch [(0, 0, 0, 0), (500, 800, 900, 800), (900, 800, 500, 800), (900, 800, 500, 800),
             (900, 800, 800, 640)]
       (loaded exampleEnv [])) =
     [DimensionChanged 500 800 True, DimensionChanged 800 640 False]"
proof -
  have e: "embedLoad exampleEnv" "pageOk exampleEnv" "readyStateComplete exampleEnv"
    by (simp_all add: embedLoad_def pageOk_def truthy_def exampleEnv_def)
  from watcher_first_sample_and_growth [OF e] e show ?thesis by simp
qed

section \<open>The cap on the dimension changes\<close>

text \<open>
  C1, where the claim fails: after 50 samples that all changed the height the counter is
  50, no warning was given and the loop is still scheduled; a 51st changing sample fires the
  51st event.
\<close>

theorem watcher_fires_51st_event:
  "numDimensionChanges (dw (watch ((0, 0, 0, 0) # growing 50) (loaded exampleEnv []))) = 50 \<and>
   warnings (watch ((0, 0, 0, 0) # growing 50) (loaded exampleEnv [])) = [] \<and>
   watcherTasks (watch ((0, 0, 0, 0) # growing 50) (loaded exampleEnv []))
     = [(AnimationFrame, InformAboutScroll)] \<and>
   length (dimensionEvents (watch ((0, 0, 0, 0) # growing 51) (loaded exampleEnv []))) = 51 \<and>
   last (dimensionEvents (watch ((0, 0, 0, 0) # growing 51) (loaded exampleEnv [])))
     = DimensionChanged 51 800 False"
  by code_simp

text \<open>
  C1, as the code has it: whatever happens in a loaded document, at most 51
  \<open>dimension-changed\<close> events are ever fired. When the measured height changes on every
  sample, the events fired are those of the first 51 samples; the loop stops rescheduling
  and gives its one warning exactly when there was a 51st sample, that is when the counter
  exceeds 50. The first measurement \<open>d\<close> is the wake-up that only arms the 10 ms timer.
\<close>

theorem watcher_stops_after_51:
  assumes "embedLoad e" and "pageOk e" and "readyStateComplete e"
    and "distinct_adj (heights ds)"
  shows "length (dimensionEvents (loaded e acts)) \<le> 51 \<and>
    dimensionEvents (watch (d # ds) (loaded e [])) = take 51 (reported True ds) \<and>
    warnings (watch (d # ds) (loaded e [])) = (if 51 \<le> length ds then [tooMany] else []) \<and>
    (watcherTasks (watch (d # ds) (loaded e [])) = [] \<longleftrightarrow> 51 \<le> length ds)"
proof -
  have "length (dimensionEvents (loaded e acts)) \<le> 51"
    using bounded_loaded [of e acts] by (simp add: bounded_def)
  then show ?thesis
    using watch_from_load [OF assms, of d] by simp
qed

text \<open>The statement above on 60 samples of growing height.\<close>

theorem watcher_stops_after_51_witness:
  "embedLoad exampleEnv \<and> pageOk exampleEnv \<and> readyStateComplete exampleEnv \<and>
   distinct_adj (heights (growing 60)) \<and>
   length (dimensionEvents (watch ((0, 0, 0, 0) # growing 60) (loaded exampleEnv []))) = 51 \<and>
   warnings (watch ((0, 0, 0, 0) # growing 60) (loaded exampleEnv [])) = [tooMany] \<and>
   watcherTasks (watch ((0, 0, 0, 0) # growing 60) (loaded exampleEnv [])) = []"
proof -
  have e: "embedLoad exampleEnv" "pageOk exampleEnv" "readyStateComplete exampleEnv"
    by (simp_all add: embedLoad_def pageOk_def truthy_def exampleEnv_def)
  have h: "distinct_adj (heights (growing 60))"
    by code_simp
  have l: "length (growing 60) = 60"
    by (simp add: growing_def)
  from watcher_stops_after_51 [OF e h, where d = "(0, 0, 0, 0)"] e h l
  show ?thesis by simp
qed

section \<open>The namespace resolver\<close>

text \<open>
  C5, where the claim fails: the first call on a URL without the \<open>embed\<close> parameter returns
  \<open>null\<close>; after the URL has got \<open>?embed=foo\<close> the next call returns \<open>"foo"\<close>, not the first
  result.
\<close>

theorem getNamespace_null_not_cached:
  "fst (getNamespace (initialWorld (exampleEnv\<lparr>url_embed := None\<rparr>))) = None \<and>
   fst (getNamespace (step (SetUrl (Some ''foo'') None None)
          (snd (getNamespace (initialWorld (exampleEnv\<lparr>url_embed := None\<rparr>)))))) = Some ''foo''"
  by (simp add: getNamespace_def isValidNamespace_def initialWorld_def exampleEnv_def step_def
      Let_def)

text \<open>
  C5, as the code has it: a call of the namespace resolver that finds an \<open>embed\<close> parameter
  stores it, and every later call returns that value, whatever happens in the document in
  between, changes of the URL included. A call that finds no parameter stores \<open>null\<close>, which
  is not kept: the next call parses the URL of that moment again.
\<close>

theorem getNamespace_caches_found:
  "(fst (getNamespace w) = Some n \<longrightarrow>
      namespace (store (snd (getNamespace w))) = Some n \<and>
      getNamespace (run acts (snd (getNamespace w))) = (Some n, run acts (snd (getNamespace w)))) \<and>
   (fst (getNamespace w) = None \<longrightarrow>
      namespace (store (snd (getNamespace w))) = None \<and>
      fst (getNamespace (step (SetUrl e p d) (snd (getNamespace w)))) = e)"
proof (intro conjI impI)
  assume found: "fst (getNamespace w) = Some n"
  then show stored: "namespace (store (snd (getNamespace w))) = Some n"
    by (auto simp: getNamespace_def isValidNamespace_def Let_def split: if_splits)
  then have "namespace (store (run acts (snd (getNamespace w)))) = Some n"
    by (rule ns_run)
  then show "getNamespace (run acts (snd (getNamespace w))) = (Some n, run acts (snd (getNamespace w)))"
    by (rule getNamespace_Some)
next
  assume none: "fst (getNamespace w) = None"
  then show stored: "namespace (store (snd (getNamespace w))) = None"
    by (auto simp: getNamespace_def isValidNamespace_def Let_def split: if_splits)
  then show "fst (getNamespace (step (SetUrl e p d) (snd (getNamespace w)))) = e"
    by (simp add: getNamespace_def isValidNamespace_def step_def Let_def)
qed

text \<open>The statement above at a URL with \<open>?embed=abc\<close> and at one without the parameter.\<close>

theorem getNamespace_caches_found_witness:
  "fst (getNamespace (initialWorld exampleEnv)) = Some ''abc'' \<and>
   fst (getNamespace (run [SetUrl (Some ''xyz'') None None] (snd (getNamespace (initialWorld exampleEnv))))) = Some ''abc'' \<and>
   fst (getNamespace (initialWorld (exampleEnv\<lparr>url_embed := None\<rparr>))) = None \<and>
   fst (getNamespace (step (SetUrl (Some ''xyz'') None None)
          (snd (getNamespace (initialWorld (exampleEnv\<lparr>url_embed := None\<rparr>)))))) = Some ''xyz''"
proof -
  have a: "fst (getNamespace (initialWorld exampleEnv)) = Some ''abc''"
    by (simp add: getNamespace_def isValidNamespace_def initialWorld_def exampleEnv_def Let_def)
  have b: "fst (getNamespace (initialWorld (exampleEnv\<lparr>url_embed := None\<rparr>))) = None"
    by (simp add: getNamespace_def isValidNamespace_def initialWorld_def exampleEnv_def Let_def)
  from a b
    getNamespace_caches_found [where w = "initialWorld exampleEnv" and n = "''abc''"
      and acts = "[SetUrl (Some ''xyz'') None None]"]
    getNamespace_caches_found [where w = "initialWorld (exampleEnv\<lparr>url_embed := None\<rparr>)"
      and e = "Some ''xyz''" and p = None and d = None]
  show ?thesis by simp
qed

section \<open>The cached fields of the store\<close>

text \<open>
  C8, where the claim fails: \<open>useEmbedTheme\<close> tests the stored theme for truthiness, so the
  empty string, read from \<open>?theme=\<close>, is stored and replaced by the next read.
\<close>

theorem theme_empty_not_kept:
  "theme (store (run [UseEmbedTheme (Some [])] (initialWorld exampleEnv))) = Some [] \<and>
   theme (store (run [UseEmbedTheme (Some []), UseEmbedTheme (Some ''dark'')] (initialWorld exampleEnv)))
     = Some ''dark''"
  by (simp add: step_def useEmbedTheme_def truthy_def initialWorld_def)

text \<open>
  C8, as the code has it: over every sequence of operations of the document, a namespace
  that is not \<open>null\<close> never changes, and a theme that is a non-empty string never changes.
\<close>

theorem namespace_theme_kept:
  "(namespace (store w) = Some n \<longrightarrow> namespace (store (run acts w)) = Some n) \<and>
   (theme (store w) = Some t \<and> t \<noteq> [] \<longrightarrow> theme (store (run acts w)) = Some t)"
  by (simp add: ns_run theme_run)

text \<open>The statement above on a document whose URL and router query change.\<close>

theorem namespace_theme_kept_witness:
  "namespace (store (run [UseIsEmbed, SetUrl (Some ''xyz'') None None, UseIsEmbed] (initialWorld exampleEnv))) = Some ''abc'' \<and>
   theme (store (run [UseEmbedTheme (Some ''dark''), UseEmbedTheme (Some ''light'')] (initialWorld exampleEnv))) = Some ''dark''"
proof -
  let ?w = "step UseIsEmbed (initialWorld exampleEnv)"
  let ?v = "step (UseEmbedTheme (Some ''dark'')) (initialWorld exampleEnv)"
  have a: "namespace (store ?w) = Some ''abc''"
    by (simp add: step_def isEmbed_def getNamespace_def isValidNamespace_def initialWorld_def
        exampleEnv_def Let_def)
  have b: "theme (store ?v) = Some ''dark'' \<and> ''dark'' \<noteq> []"
    by (simp add: step_def useEmbedTheme_def truthy_def initialWorld_def)
  from a b
    namespace_theme_kept [where w = ?w and n = "''abc''"
      and acts = "[SetUrl (Some ''xyz'') None None, UseIsEmbed]"]
    namespace_theme_kept [where w = ?v and t = "''dark''"
      and acts = "[UseEmbedTheme (Some ''light'')]"]
  show ?thesis by simp
qed

end
